theory Spec2Isabelle
  imports Main
begin

section \<open>Values, columns and tables\<close>

text \<open>
  The program is the migration \<^verbatim>\<open>20260206091748_create_ehr_schema.sql\<close>: seven
  \<^verbatim>\<open>CREATE TABLE\<close> statements, seven \<^verbatim>\<open>ENABLE ROW LEVEL SECURITY\<close> statements and
  eighteen \<^verbatim>\<open>CREATE POLICY\<close> statements, together with the client code that writes
  to the tables. The declarations are embedded as data (one list entry per column and
  per policy, in the order of the file), and the statements the database executes
  against them as functions on an explicit database state.

  A \<^verbatim>\<open>uuid\<close> is an opaque identifier and a timestamp a point on a clock; both are
  natural numbers here. A column value is \<open>None\<close> for SQL \<^verbatim>\<open>NULL\<close>.
\<close>

type_synonym uuid = nat
type_synonym timestamptz = nat

datatype sql_type = uuid_t | text_t | integer_t | decimal_t | date_t | timestamptz_t

datatype val =
    Uuid uuid
  | Text string
  | Integer int
  | Decimal int nat
  | Date nat
  | Timestamptz timestamptz

definition has_type :: "sql_type \<Rightarrow> val \<Rightarrow> bool" where
  "has_type ty v = (case v of
       Uuid _ \<Rightarrow> ty = uuid_t
     | Text _ \<Rightarrow> ty = text_t
     | Integer _ \<Rightarrow> ty = integer_t \<or> ty = decimal_t
     | Decimal _ _ \<Rightarrow> ty = decimal_t
     | Date _ \<Rightarrow> ty = date_t
     | Timestamptz _ \<Rightarrow> ty = timestamptz_t)"

datatype default_expr = gen_random_uuid | now | literal val

record column =
  col_name :: string
  col_type :: sql_type
  col_primary_key :: bool
  col_not_null :: bool
  col_unique :: bool
  col_default :: "default_expr option"
  col_references :: "string option"
  col_check_in :: "string list option"

record table_def =
  tbl_name :: string
  tbl_columns :: "column list"

text \<open>A column with no constraint; the constraints of a declaration are added to it.\<close>

definition col :: "string \<Rightarrow> sql_type \<Rightarrow> column" where
  "col n ty = \<lparr> col_name = n, col_type = ty, col_primary_key = False,
     col_not_null = False, col_unique = False, col_default = None,
     col_references = None, col_check_in = None \<rparr>"

definition staff_table :: table_def where
  "staff_table = \<lparr> tbl_name = ''staff'', tbl_columns = [
     (col ''id'' uuid_t)\<lparr> col_primary_key := True, col_default := Some gen_random_uuid \<rparr>,
     (col ''user_id'' uuid_t)\<lparr> col_references := Some ''auth.users'', col_not_null := True,
        col_unique := True \<rparr>,
     (col ''first_name'' text_t)\<lparr> col_not_null := True \<rparr>,
     (col ''last_name'' text_t)\<lparr> col_not_null := True \<rparr>,
     (col ''role'' text_t)\<lparr> col_not_null := True, col_check_in :=
        Some [''admin'', ''doctor'', ''nurse'', ''receptionist'', ''lab_technician''] \<rparr>,
     col ''specialization'' text_t,
     (col ''phone'' text_t)\<lparr> col_not_null := True \<rparr>,
     (col ''email'' text_t)\<lparr> col_not_null := True \<rparr>,
     col ''license_number'' text_t,
     (col ''created_at'' timestamptz_t)\<lparr> col_default := Some now \<rparr> ] \<rparr>"

definition patients_table :: table_def where
  "patients_table = \<lparr> tbl_name = ''patients'', tbl_columns = [
     (col ''id'' uuid_t)\<lparr> col_primary_key := True, col_default := Some gen_random_uuid \<rparr>,
     (col ''first_name'' text_t)\<lparr> col_not_null := True \<rparr>,
     (col ''last_name'' text_t)\<lparr> col_not_null := True \<rparr>,
     (col ''date_of_birth'' date_t)\<lparr> col_not_null := True \<rparr>,
     (col ''gender'' text_t)\<lparr> col_not_null := True, col_check_in :=
        Some [''male'', ''female'', ''other''] \<rparr>,
     (col ''phone'' text_t)\<lparr> col_not_null := True \<rparr>,
     col ''email'' text_t,
     (col ''address'' text_t)\<lparr> col_not_null := True \<rparr>,
     (col ''national_id'' text_t)\<lparr> col_unique := True, col_not_null := True \<rparr>,
     col ''blood_type'' text_t,
     col ''allergies'' text_t,
     (col ''emergency_contact_name'' text_t)\<lparr> col_not_null := True \<rparr>,
     (col ''emergency_contact_phone'' text_t)\<lparr> col_not_null := True \<rparr>,
     (col ''created_at'' timestamptz_t)\<lparr> col_default := Some now \<rparr> ] \<rparr>"

definition appointments_table :: table_def where
  "appointments_table = \<lparr> tbl_name = ''appointments'', tbl_columns = [
     (col ''id'' uuid_t)\<lparr> col_primary_key := True, col_default := Some gen_random_uuid \<rparr>,
     (col ''patient_id'' uuid_t)\<lparr> col_references := Some ''patients'', col_not_null := True \<rparr>,
     (col ''doctor_id'' uuid_t)\<lparr> col_references := Some ''staff'', col_not_null := True \<rparr>,
     (col ''appointment_date'' timestamptz_t)\<lparr> col_not_null := True \<rparr>,
     (col ''status'' text_t)\<lparr> col_default := Some (literal (Text ''scheduled'')),
        col_check_in := Some [''scheduled'', ''completed'', ''cancelled'', ''no_show''] \<rparr>,
     (col ''reason'' text_t)\<lparr> col_not_null := True \<rparr>,
     col ''notes'' text_t,
     (col ''created_at'' timestamptz_t)\<lparr> col_default := Some now \<rparr> ] \<rparr>"

definition medical_records_table :: table_def where
  "medical_records_table = \<lparr> tbl_name = ''medical_records'', tbl_columns = [
     (col ''id'' uuid_t)\<lparr> col_primary_key := True, col_default := Some gen_random_uuid \<rparr>,
     (col ''patient_id'' uuid_t)\<lparr> col_references := Some ''patients'', col_not_null := True \<rparr>,
     (col ''doctor_id'' uuid_t)\<lparr> col_references := Some ''staff'', col_not_null := True \<rparr>,
     (col ''appointment_id'' uuid_t)\<lparr> col_references := Some ''appointments'' \<rparr>,
     (col ''visit_date'' timestamptz_t)\<lparr> col_default := Some now \<rparr>,
     (col ''chief_complaint'' text_t)\<lparr> col_not_null := True \<rparr>,
     (col ''diagnosis'' text_t)\<lparr> col_not_null := True \<rparr>,
     (col ''treatment_plan'' text_t)\<lparr> col_not_null := True \<rparr>,
     col ''notes'' text_t,
     (col ''created_at'' timestamptz_t)\<lparr> col_default := Some now \<rparr> ] \<rparr>"

definition vitals_table :: table_def where
  "vitals_table = \<lparr> tbl_name = ''vitals'', tbl_columns = [
     (col ''id'' uuid_t)\<lparr> col_primary_key := True, col_default := Some gen_random_uuid \<rparr>,
     (col ''medical_record_id'' uuid_t)\<lparr> col_references := Some ''medical_records'',
        col_not_null := True \<rparr>,
     col ''blood_pressure_systolic'' integer_t,
     col ''blood_pressure_diastolic'' integer_t,
     col ''heart_rate'' integer_t,
     col ''temperature'' decimal_t,
     col ''weight'' decimal_t,
     col ''height'' decimal_t,
     (col ''recorded_by'' uuid_t)\<lparr> col_references := Some ''staff'', col_not_null := True \<rparr>,
     (col ''recorded_at'' timestamptz_t)\<lparr> col_default := Some now \<rparr> ] \<rparr>"

definition prescriptions_table :: table_def where
  "prescriptions_table = \<lparr> tbl_name = ''prescriptions'', tbl_columns = [
     (col ''id'' uuid_t)\<lparr> col_primary_key := True, col_default := Some gen_random_uuid \<rparr>,
     (col ''medical_record_id'' uuid_t)\<lparr> col_references := Some ''medical_records'',
        col_not_null := True \<rparr>,
     (col ''patient_id'' uuid_t)\<lparr> col_references := Some ''patients'', col_not_null := True \<rparr>,
     (col ''doctor_id'' uuid_t)\<lparr> col_references := Some ''staff'', col_not_null := True \<rparr>,
     (col ''medication_name'' text_t)\<lparr> col_not_null := True \<rparr>,
     (col ''dosage'' text_t)\<lparr> col_not_null := True \<rparr>,
     (col ''frequency'' text_t)\<lparr> col_not_null := True \<rparr>,
     (col ''duration'' text_t)\<lparr> col_not_null := True \<rparr>,
     col ''instructions'' text_t,
     (col ''created_at'' timestamptz_t)\<lparr> col_default := Some now \<rparr> ] \<rparr>"

definition lab_results_table :: table_def where
  "lab_results_table = \<lparr> tbl_name = ''lab_results'', tbl_columns = [
     (col ''id'' uuid_t)\<lparr> col_primary_key := True, col_default := Some gen_random_uuid \<rparr>,
     (col ''patient_id'' uuid_t)\<lparr> col_references := Some ''patients'', col_not_null := True \<rparr>,
     (col ''medical_record_id'' uuid_t)\<lparr> col_references := Some ''medical_records'' \<rparr>,
     (col ''test_name'' text_t)\<lparr> col_not_null := True \<rparr>,
     (col ''test_type'' text_t)\<lparr> col_not_null := True \<rparr>,
     col ''results'' text_t,
     (col ''status'' text_t)\<lparr> col_default := Some (literal (Text ''pending'')),
        col_check_in := Some [''pending'', ''completed'', ''cancelled''] \<rparr>,
     (col ''ordered_by'' uuid_t)\<lparr> col_references := Some ''staff'', col_not_null := True \<rparr>,
     (col ''performed_by'' uuid_t)\<lparr> col_references := Some ''staff'' \<rparr>,
     (col ''ordered_at'' timestamptz_t)\<lparr> col_default := Some now \<rparr>,
     (col ''completed_at'' timestamptz_t) ] \<rparr>"

text \<open>
  \<^verbatim>\<open>auth.users\<close> belongs to the authentication service and is declared outside
  this repository; \<^verbatim>\<open>staff.user_id\<close> references its primary key \<^verbatim>\<open>id\<close>, and the demo
  account migration inserts into it. Its other columns named by that migration carry
  no constraint that matters here.
\<close>

definition auth_users_table :: table_def where
  "auth_users_table = \<lparr> tbl_name = ''auth.users'', tbl_columns = [
     (col ''id'' uuid_t)\<lparr> col_primary_key := True \<rparr>,
     col ''instance_id'' uuid_t,
     col ''email'' text_t,
     col ''encrypted_password'' text_t,
     col ''email_confirmed_at'' timestamptz_t,
     col ''created_at'' timestamptz_t,
     col ''updated_at'' timestamptz_t,
     col ''raw_app_meta_data'' text_t,
     col ''raw_user_meta_data'' text_t,
     col ''aud'' text_t,
     col ''role'' text_t ] \<rparr>"

definition schema :: "table_def list" where
  "schema = [staff_table, patients_table, appointments_table, medical_records_table,
     vitals_table, prescriptions_table, lab_results_table]"

definition all_tables :: "table_def list" where
  "all_tables = auth_users_table # schema"

text \<open>The seven \<^verbatim>\<open>ALTER TABLE ... ENABLE ROW LEVEL SECURITY\<close> statements.\<close>

definition rls_enabled :: "string list" where
  "rls_enabled = [''staff'', ''patients'', ''appointments'', ''medical_records'',
     ''vitals'', ''prescriptions'', ''lab_results'']"

section \<open>Database state and callers\<close>

type_synonym row = "string \<Rightarrow> val option"
type_synonym database = "string \<Rightarrow> row list"

definition empty_db :: database where
  "empty_db = (\<lambda>t. [])"

text \<open>
  What a statement reads from its surroundings: the database role it runs as, the
  identity \<^verbatim>\<open>auth.uid()\<close> of the caller, the value of \<^verbatim>\<open>now()\<close> and the value
  \<^verbatim>\<open>gen_random_uuid()\<close> draws.
\<close>

record request_ctx =
  db_role :: string
  auth_uid :: uuid
  now_value :: timestamptz
  random_uuid :: uuid

text \<open>
  The migrations run as the owner of the tables, to whom row-level security does not
  apply (no table has \<^verbatim>\<open>FORCE ROW LEVEL SECURITY\<close>) and who holds every privilege.
  Every other role holds the table privileges of the public schema only.
\<close>

definition table_owner :: string where
  "table_owner = ''postgres''"

definition has_privilege :: "request_ctx \<Rightarrow> string \<Rightarrow> bool" where
  "has_privilege c t = (db_role c = table_owner \<or> t \<in> set (map tbl_name schema))"

definition bypasses_rls :: "request_ctx \<Rightarrow> string \<Rightarrow> bool" where
  "bypasses_rls c t = (db_role c = table_owner \<or> t \<notin> set rls_enabled)"

section \<open>Row-level security policies\<close>

datatype pol_cmd = FOR_ALL | FOR_SELECT | FOR_INSERT | FOR_UPDATE | FOR_DELETE

text \<open>
  The three forms of policy expression in the migration.
  \<^item> \<^verbatim>\<open>true\<close>;
  \<^item> \<^verbatim>\<open>auth.uid() = user_id\<close>, on the row of \<^verbatim>\<open>staff\<close> being read;
  \<^item> \<^verbatim>\<open>EXISTS (SELECT 1 FROM staff WHERE staff.user_id = auth.uid())\<close>, with or without
    \<^verbatim>\<open>AND staff.role IN (...)\<close> (the policy on \<^verbatim>\<open>staff\<close> writes \<^verbatim>\<open>staff.role = 'admin'\<close>,
    a list of one).
  The third form holds a sub-select, and the table it reads matters to the database
  before any row is looked at.
\<close>

datatype qual =
    q_true
  | q_own_profile
  | q_staff_exists "string list option"

fun sub_selects :: "qual \<Rightarrow> string list" where
  "sub_selects q_true = []"
| "sub_selects q_own_profile = []"
| "sub_selects (q_staff_exists roles) = [''staff'']"

record policy =
  pol_name :: string
  pol_table :: string
  pol_cmd :: pol_cmd
  pol_to :: "string list"
  pol_using :: "qual option"
  pol_with_check :: "qual option"

definition pol :: "string \<Rightarrow> string \<Rightarrow> pol_cmd \<Rightarrow> policy" where
  "pol n t cmd = \<lparr> pol_name = n, pol_table = t, pol_cmd = cmd,
     pol_to = [''authenticated''], pol_using = None, pol_with_check = None \<rparr>"

definition policies :: "policy list" where
  "policies = [
     (pol ''Authenticated users can view all staff'' ''staff'' FOR_SELECT)
        \<lparr> pol_using := Some q_true \<rparr>,
     (pol ''Staff can view own profile'' ''staff'' FOR_SELECT)
        \<lparr> pol_using := Some q_own_profile \<rparr>,
     (pol ''Admins can manage staff'' ''staff'' FOR_ALL)
        \<lparr> pol_using := Some (q_staff_exists (Some [''admin''])) \<rparr>,
     (pol ''Authenticated staff can view patients'' ''patients'' FOR_SELECT)
        \<lparr> pol_using := Some (q_staff_exists None) \<rparr>,
     (pol ''Receptionists and admins can insert patients'' ''patients'' FOR_INSERT)
        \<lparr> pol_with_check := Some (q_staff_exists (Some [''receptionist'', ''admin''])) \<rparr>,
     (pol ''Receptionists and admins can update patients'' ''patients'' FOR_UPDATE)
        \<lparr> pol_using := Some (q_staff_exists (Some [''receptionist'', ''admin''])) \<rparr>,
     (pol ''Authenticated staff can view appointments'' ''appointments'' FOR_SELECT)
        \<lparr> pol_using := Some (q_staff_exists None) \<rparr>,
     (pol ''Receptionists, doctors, and admins can manage appointments'' ''appointments'' FOR_ALL)
        \<lparr> pol_using := Some (q_staff_exists (Some [''receptionist'', ''doctor'', ''admin''])) \<rparr>,
     (pol ''Doctors and nurses can view medical records'' ''medical_records'' FOR_SELECT)
        \<lparr> pol_using := Some (q_staff_exists (Some [''doctor'', ''nurse'', ''admin''])) \<rparr>,
     (pol ''Doctors can create medical records'' ''medical_records'' FOR_INSERT)
        \<lparr> pol_with_check := Some (q_staff_exists (Some [''doctor'', ''admin''])) \<rparr>,
     (pol ''Doctors can update their own medical records'' ''medical_records'' FOR_UPDATE)
        \<lparr> pol_using := Some (q_staff_exists (Some [''doctor'', ''admin''])) \<rparr>,
     (pol ''Staff can view vitals'' ''vitals'' FOR_SELECT)
        \<lparr> pol_using := Some (q_staff_exists None) \<rparr>,
     (pol ''Nurses and doctors can manage vitals'' ''vitals'' FOR_ALL)
        \<lparr> pol_using := Some (q_staff_exists (Some [''nurse'', ''doctor'', ''admin''])) \<rparr>,
     (pol ''Staff can view prescriptions'' ''prescriptions'' FOR_SELECT)
        \<lparr> pol_using := Some (q_staff_exists None) \<rparr>,
     (pol ''Doctors can create prescriptions'' ''prescriptions'' FOR_INSERT)
        \<lparr> pol_with_check := Some (q_staff_exists (Some [''doctor'', ''admin''])) \<rparr>,
     (pol ''Staff can view lab results'' ''lab_results'' FOR_SELECT)
        \<lparr> pol_using := Some (q_staff_exists None) \<rparr>,
     (pol ''Doctors can order lab tests'' ''lab_results'' FOR_INSERT)
        \<lparr> pol_with_check := Some (q_staff_exists (Some [''doctor'', ''admin''])) \<rparr>,
     (pol ''Lab technicians can update lab results'' ''lab_results'' FOR_UPDATE)
        \<lparr> pol_using := Some (q_staff_exists (Some [''lab_technician'', ''doctor'', ''admin''])) \<rparr>
   ]"

text \<open>
  The policies of a table that apply to a command and a role: those declared for the
  command or \<^verbatim>\<open>FOR ALL\<close>, and for a role named after \<^verbatim>\<open>TO\<close>. Of these an existing row is
  tested with the \<^verbatim>\<open>USING\<close> expressions, a new row with \<^verbatim>\<open>WITH CHECK\<close>, or with \<^verbatim>\<open>USING\<close>
  where the policy has no \<^verbatim>\<open>WITH CHECK\<close>.
\<close>

definition applicable :: "request_ctx \<Rightarrow> string \<Rightarrow> pol_cmd \<Rightarrow> policy list" where
  "applicable c t cmd =
     filter (\<lambda>p. pol_table p = t \<and> (pol_cmd p = FOR_ALL \<or> pol_cmd p = cmd) \<and>
                 db_role c \<in> set (pol_to p)) policies"

definition using_quals :: "policy list \<Rightarrow> qual list" where
  "using_quals ps = concat (map (\<lambda>p. case pol_using p of Some q \<Rightarrow> [q] | None \<Rightarrow> []) ps)"

definition check_quals :: "policy list \<Rightarrow> qual list" where
  "check_quals ps =
     concat (map (\<lambda>p. case pol_with_check p of
                         Some q \<Rightarrow> [q]
                       | None \<Rightarrow> (case pol_using p of Some q \<Rightarrow> [q] | None \<Rightarrow> [])) ps)"

definition has_sub_links :: "policy list \<Rightarrow> bool" where
  "has_sub_links ps =
     list_ex (\<lambda>p. (case pol_using p of Some q \<Rightarrow> sub_selects q \<noteq> [] | None \<Rightarrow> False) \<or>
                   (case pol_with_check p of Some q \<Rightarrow> sub_selects q \<noteq> [] | None \<Rightarrow> False)) ps"

subsection \<open>Expanding the policies of a statement\<close>

text \<open>
  Before a statement runs, the database adds the expressions of the applicable
  policies to it. A sub-select inside such an expression is a query of the caller like
  any other, so the select policies of the table it reads are added to it in turn,
  and so on. The database keeps the list of the tables whose policies it is in the
  middle of expanding; when the policies of a table have sub-selects and that table
  is already on the list, it gives up with the error 42P17, \<^verbatim>\<open>infinite recursion detected
  in policy for relation\<close>. This happens whatever the rows are, and whether or not another
  policy of the table would have admitted them.

  \<open>expand_select c active t\<close> tells whether the expansion of a sub-select from \<open>t\<close>
  succeeds while the tables \<open>active\<close> are being expanded.
\<close>

function expand_select :: "request_ctx \<Rightarrow> string list \<Rightarrow> string \<Rightarrow> bool" where
  "expand_select c active t =
     (if bypasses_rls c t \<or> \<not> has_sub_links (applicable c t FOR_SELECT) then True
      else if t \<in> set active then False
      else list_all (\<lambda>t'. expand_select c (t # active) t')
             (concat (map sub_selects (using_quals (applicable c t FOR_SELECT)))))"
  by pat_completeness auto

termination
proof (relation "measure (\<lambda>(c, active, t). card (set (map pol_table policies) - set active))")
  show "wf (measure (\<lambda>(c, active, t). card (set (map pol_table policies) - set active)))"
    by simp
next
  fix c :: request_ctx and active :: "string list" and t t' :: string
  assume "\<not> (bypasses_rls c t \<or> \<not> has_sub_links (applicable c t FOR_SELECT))"
    and new: "t \<notin> set active"
  then have "applicable c t FOR_SELECT \<noteq> []"
    by (auto simp: has_sub_links_def)
  then obtain p where "p \<in> set policies" "pol_table p = t"
    by (auto simp: applicable_def filter_empty_conv)
  then have "t \<in> set (map pol_table policies)"
    by auto
  with new have "set (map pol_table policies) - set (t # active)
      \<subset> set (map pol_table policies) - set active"
    by auto
  then have "card (set (map pol_table policies) - set (t # active))
      < card (set (map pol_table policies) - set active)"
    by (intro psubset_card_mono) simp_all
  then show "((c, t # active, t'), (c, active, t))
      \<in> measure (\<lambda>(c, active, t). card (set (map pol_table policies) - set active))"
    by simp
qed

declare expand_select.simps [simp del]

text \<open>
  What a statement on table \<open>t\<close> adds: the policies fetched for its command, and
  those for \<^verbatim>\<open>SELECT\<close> too when an \<^verbatim>\<open>UPDATE\<close> or \<^verbatim>\<open>DELETE\<close> reads the table (it has a
  \<^verbatim>\<open>WHERE\<close> clause). An \<^verbatim>\<open>INSERT\<close> here has no \<^verbatim>\<open>RETURNING\<close>.
\<close>

definition fetched_policies :: "request_ctx \<Rightarrow> string \<Rightarrow> pol_cmd \<Rightarrow> bool \<Rightarrow> policy list" where
  "fetched_policies c t cmd reads =
     applicable c t cmd @ (if reads \<and> cmd \<noteq> FOR_SELECT then applicable c t FOR_SELECT else [])"

definition added_quals :: "request_ctx \<Rightarrow> string \<Rightarrow> pol_cmd \<Rightarrow> bool \<Rightarrow> qual list" where
  "added_quals c t cmd reads =
     (case cmd of
        FOR_SELECT \<Rightarrow> using_quals (applicable c t FOR_SELECT)
      | FOR_INSERT \<Rightarrow> check_quals (applicable c t FOR_INSERT)
      | FOR_UPDATE \<Rightarrow> using_quals (applicable c t FOR_UPDATE) @
                      check_quals (applicable c t FOR_UPDATE) @
                      (if reads then using_quals (applicable c t FOR_SELECT) else [])
      | FOR_DELETE \<Rightarrow> using_quals (applicable c t FOR_DELETE) @
                      (if reads then using_quals (applicable c t FOR_SELECT) else [])
      | FOR_ALL \<Rightarrow> [])"

text \<open>
  The expansion of a statement on \<open>t\<close> succeeds when row-level security does not apply
  to the caller, when no fetched policy has a sub-select, or when every sub-select of
  the added expressions expands while \<open>t\<close> is being expanded.
\<close>

definition expand_policies :: "request_ctx \<Rightarrow> string \<Rightarrow> pol_cmd \<Rightarrow> bool \<Rightarrow> bool" where
  "expand_policies c t cmd reads =
     (bypasses_rls c t \<or> \<not> has_sub_links (fetched_policies c t cmd reads) \<or>
      list_all (expand_select c [t]) (concat (map sub_selects (added_quals c t cmd reads))))"

subsection \<open>Evaluating the policies on a row\<close>

text \<open>
  A sub-select sees the rows of its table that the caller may select. \<open>visible c db
  active t\<close> are those rows of \<open>t\<close>, under the same bookkeeping as the expansion; the
  case of a table already being expanded does not arise in a statement whose expansion
  has succeeded.
\<close>

definition is_caller :: "request_ctx \<Rightarrow> row \<Rightarrow> bool" where
  "is_caller c s = (s ''user_id'' = Some (Uuid (auth_uid c)))"

definition role_in :: "string list \<Rightarrow> row \<Rightarrow> bool" where
  "role_in rs s = (case s ''role'' of Some (Text x) \<Rightarrow> x \<in> set rs | _ \<Rightarrow> False)"

text \<open>A comparison with \<^verbatim>\<open>NULL\<close> is not true.\<close>

fun eval_qual :: "request_ctx \<Rightarrow> (string \<Rightarrow> row list) \<Rightarrow> qual \<Rightarrow> row \<Rightarrow> bool" where
  "eval_qual c sub q_true r = True"
| "eval_qual c sub q_own_profile r = is_caller c r"
| "eval_qual c sub (q_staff_exists roles) r =
     list_ex (\<lambda>s. is_caller c s \<and> (case roles of None \<Rightarrow> True | Some rs \<Rightarrow> role_in rs s))
       (sub ''staff'')"

function visible :: "request_ctx \<Rightarrow> database \<Rightarrow> string list \<Rightarrow> string \<Rightarrow> row list" where
  "visible c db active t =
     (if bypasses_rls c t then db t
      else if \<not> has_sub_links (applicable c t FOR_SELECT)
      then filter (\<lambda>r. list_ex (\<lambda>q. eval_qual c (\<lambda>t'. []) q r)
                          (using_quals (applicable c t FOR_SELECT))) (db t)
      else if t \<in> set active then []
      else filter (\<lambda>r. list_ex (\<lambda>q. eval_qual c (\<lambda>t'. visible c db (t # active) t') q r)
                          (using_quals (applicable c t FOR_SELECT))) (db t))"
  by pat_completeness auto
termination
proof (relation "measure (\<lambda>(c, db, active, t). card (set (map pol_table policies) - set active))")
  show "wf (measure (\<lambda>(c, db, active, t). card (set (map pol_table policies) - set active)))"
    by simp
next
  fix c :: request_ctx and db :: database and active :: "string list" and t t' :: string
  assume "\<not> bypasses_rls c t" and "\<not> \<not> has_sub_links (applicable c t FOR_SELECT)"
    and new: "t \<notin> set active"
  then have "applicable c t FOR_SELECT \<noteq> []"
    by (auto simp: has_sub_links_def)
  then obtain p where "p \<in> set policies" "pol_table p = t"
    by (auto simp: applicable_def filter_empty_conv)
  then have "t \<in> set (map pol_table policies)"
    by auto
  with new have "set (map pol_table policies) - set (t # active)
      \<subset> set (map pol_table policies) - set active"
    by auto
  then have "card (set (map pol_table policies) - set (t # active))
      < card (set (map pol_table policies) - set active)"
    by (intro psubset_card_mono) simp_all
  then show "((c, db, t # active, t'), (c, db, active, t))
      \<in> measure (\<lambda>(c, db, active, t). card (set (map pol_table policies) - set active))"
    by simp
qed

declare visible.simps [simp del]

text \<open>
  All policies are permissive, so a row passes when one of the expressions holds, and a
  table with row-level security and no applicable policy admits nothing.
\<close>

definition using_ok :: "request_ctx \<Rightarrow> database \<Rightarrow> string \<Rightarrow> pol_cmd \<Rightarrow> row \<Rightarrow> bool" where
  "using_ok c db t cmd r =
     (bypasses_rls c t \<or>
      list_ex (\<lambda>q. eval_qual c (visible c db [t]) q r) (using_quals (applicable c t cmd)))"

definition with_check_ok :: "request_ctx \<Rightarrow> database \<Rightarrow> string \<Rightarrow> pol_cmd \<Rightarrow> row \<Rightarrow> bool" where
  "with_check_ok c db t cmd r =
     (bypasses_rls c t \<or>
      list_ex (\<lambda>q. eval_qual c (visible c db [t]) q r) (check_quals (applicable c t cmd)))"

section \<open>Statements\<close>

text \<open>
  The errors a statement ends with, under the names of their SQLSTATE conditions
  (42P17 is \<open>invalid_object_definition\<close>). An error aborts the statement: the database
  stays as it was.
\<close>

datatype error =
    undefined_table
  | undefined_column
  | duplicate_column
  | datatype_mismatch
  | syntax_error
  | invalid_object_definition
  | numeric_value_out_of_range
  | insufficient_privilege
  | not_null_violation
  | check_violation
  | unique_violation
  | foreign_key_violation
  | invalid_text_representation

definition lookup_table :: "string \<Rightarrow> table_def option" where
  "lookup_table t = find (\<lambda>d. tbl_name d = t) all_tables"

definition lookup_column :: "table_def \<Rightarrow> string \<Rightarrow> column option" where
  "lookup_column d n = find (\<lambda>k. col_name k = n) (tbl_columns d)"

text \<open>
  The column list of an \<^verbatim>\<open>INSERT\<close> or the \<^verbatim>\<open>SET\<close> list of an \<^verbatim>\<open>UPDATE\<close>: each column
  with the value given for it, \<open>None\<close> for an explicit \<^verbatim>\<open>NULL\<close>. A value is given in the
  type it is to be stored in; the conversions the database tries on a value of another
  type are not modelled, and such a value is refused.
\<close>

type_synonym assignments = "(string \<times> val option) list"

fun first_error :: "('a \<Rightarrow> error option) \<Rightarrow> 'a list \<Rightarrow> error option" where
  "first_error f [] = None"
| "first_error f (x # xs) = (case f x of Some e \<Rightarrow> Some e | None \<Rightarrow> first_error f xs)"

text \<open>
  An \<^verbatim>\<open>INSERT\<close> first goes through its column list: each column must exist and not
  have been named before. Then each value is matched with the type of its column.
\<close>

fun check_targets :: "table_def \<Rightarrow> string list \<Rightarrow> string list \<Rightarrow> error option" where
  "check_targets d seen [] = None"
| "check_targets d seen (n # rest) =
     (if lookup_column d n = None then Some undefined_column
      else if n \<in> set seen then Some duplicate_column
      else check_targets d (n # seen) rest)"

definition check_value :: "table_def \<Rightarrow> string \<times> val option \<Rightarrow> error option" where
  "check_value d a =
     (case lookup_column d (fst a) of
        None \<Rightarrow> Some undefined_column
      | Some k \<Rightarrow>
          (case snd a of
             None \<Rightarrow> None
           | Some x \<Rightarrow> if has_type (col_type k) x then None else Some datatype_mismatch))"

definition parse_insert :: "table_def \<Rightarrow> assignments \<Rightarrow> error option" where
  "parse_insert d vals =
     (case check_targets d [] (map fst vals) of
        Some e \<Rightarrow> Some e
      | None \<Rightarrow> first_error (check_value d) vals)"

text \<open>
  An \<^verbatim>\<open>UPDATE\<close> checks column and type of each assignment in turn; a column assigned
  twice is found only afterwards, when the statement is rewritten, and is a syntax error.
\<close>

definition parse_update :: "table_def \<Rightarrow> assignments \<Rightarrow> error option" where
  "parse_update d sets =
     (case first_error (check_value d) sets of
        Some e \<Rightarrow> Some e
      | None \<Rightarrow> if \<not> distinct (map fst sets) then Some syntax_error else None)"

text \<open>An \<^verbatim>\<open>integer\<close> column holds 32 bits.\<close>

definition range_error :: "table_def \<Rightarrow> assignments \<Rightarrow> error option" where
  "range_error d vals =
     first_error (\<lambda>a. case (lookup_column d (fst a), snd a) of
                        (Some k, Some (Integer i)) \<Rightarrow>
                          if col_type k = integer_t \<and> (i < - 2147483648 \<or> 2147483647 < i)
                          then Some numeric_value_out_of_range else None
                      | _ \<Rightarrow> None) vals"

text \<open>
  What can stop a statement before it touches a row, in the order it is met: the
  errors of parsing, the expansion of the policies, the conversion of the constants,
  and the table privilege when execution starts.
\<close>

definition select_admission :: "request_ctx \<Rightarrow> string \<Rightarrow> error option" where
  "select_admission c t =
     (if \<not> expand_policies c t FOR_SELECT True then Some invalid_object_definition
      else if \<not> has_privilege c t then Some insufficient_privilege
      else None)"

definition insert_admission ::
  "request_ctx \<Rightarrow> string \<Rightarrow> table_def \<Rightarrow> assignments \<Rightarrow> error option" where
  "insert_admission c t d vals =
     (case parse_insert d vals of
        Some e \<Rightarrow> Some e
      | None \<Rightarrow>
          if \<not> expand_policies c t FOR_INSERT False then Some invalid_object_definition
          else
            (case range_error d vals of
               Some e \<Rightarrow> Some e
             | None \<Rightarrow> if \<not> has_privilege c t then Some insufficient_privilege else None))"

definition update_admission ::
  "request_ctx \<Rightarrow> string \<Rightarrow> table_def \<Rightarrow> assignments \<Rightarrow> bool \<Rightarrow> error option" where
  "update_admission c t d sets reads =
     (case parse_update d sets of
        Some e \<Rightarrow> Some e
      | None \<Rightarrow>
          if \<not> expand_policies c t FOR_UPDATE reads then Some invalid_object_definition
          else
            (case range_error d sets of
               Some e \<Rightarrow> Some e
             | None \<Rightarrow> if \<not> has_privilege c t then Some insufficient_privilege else None))"

definition delete_admission :: "request_ctx \<Rightarrow> string \<Rightarrow> bool \<Rightarrow> error option" where
  "delete_admission c t reads =
     (if \<not> expand_policies c t FOR_DELETE reads then Some invalid_object_definition
      else if \<not> has_privilege c t then Some insufficient_privilege
      else None)"

definition eval_default :: "request_ctx \<Rightarrow> default_expr \<Rightarrow> val" where
  "eval_default c e = (case e of
       gen_random_uuid \<Rightarrow> Uuid (random_uuid c)
     | now \<Rightarrow> Timestamptz (now_value c)
     | literal v \<Rightarrow> v)"

text \<open>
  The row an \<^verbatim>\<open>INSERT\<close> builds: the value given for a column, else the column's
  \<^verbatim>\<open>DEFAULT\<close>, else \<^verbatim>\<open>NULL\<close>.
\<close>

definition new_row :: "request_ctx \<Rightarrow> table_def \<Rightarrow> assignments \<Rightarrow> row" where
  "new_row c d vals = (\<lambda>n.
     case map_of vals n of
       Some v \<Rightarrow> v
     | None \<Rightarrow>
         (case lookup_column d n of
            None \<Rightarrow> None
          | Some k \<Rightarrow> (case col_default k of None \<Rightarrow> None
                                            | Some e \<Rightarrow> Some (eval_default c e))))"

text \<open>The row an \<^verbatim>\<open>UPDATE\<close> builds from an existing one.\<close>

definition set_row :: "assignments \<Rightarrow> row \<Rightarrow> row" where
  "set_row sets r = (\<lambda>n. case map_of sets n of Some v \<Rightarrow> v | None \<Rightarrow> r n)"

subsection \<open>Constraints\<close>

definition not_null_ok :: "table_def \<Rightarrow> row \<Rightarrow> bool" where
  "not_null_ok d r =
     list_all (\<lambda>k. (col_not_null k \<or> col_primary_key k) \<longrightarrow> r (col_name k) \<noteq> None)
       (tbl_columns d)"

text \<open>\<^verbatim>\<open>CHECK (c IN (...))\<close> holds on \<^verbatim>\<open>NULL\<close>.\<close>

definition checks_ok :: "table_def \<Rightarrow> row \<Rightarrow> bool" where
  "checks_ok d r =
     list_all (\<lambda>k. case col_check_in k of
                      None \<Rightarrow> True
                    | Some allowed \<Rightarrow>
                        (case r (col_name k) of
                           None \<Rightarrow> True
                         | Some (Text x) \<Rightarrow> x \<in> set allowed
                         | Some _ \<Rightarrow> False))
       (tbl_columns d)"

definition unique_columns :: "table_def \<Rightarrow> string list" where
  "unique_columns d =
     map col_name (filter (\<lambda>k. col_primary_key k \<or> col_unique k) (tbl_columns d))"

text \<open>
  A row may enter a table when no other row has its value in a unique column; \<^verbatim>\<open>NULL\<close>
  conflicts with nothing.
\<close>

definition unique_ok :: "table_def \<Rightarrow> row list \<Rightarrow> row \<Rightarrow> bool" where
  "unique_ok d others r =
     list_all (\<lambda>n. r n = None \<or> \<not> list_ex (\<lambda>x. x n = r n) others) (unique_columns d)"

text \<open>The foreign keys of a table: the column and the table it references.\<close>

definition foreign_keys :: "table_def \<Rightarrow> (string \<times> string) list" where
  "foreign_keys d =
     concat (map (\<lambda>k. case col_references k of None \<Rightarrow> [] | Some p \<Rightarrow> [(col_name k, p)])
               (tbl_columns d))"

text \<open>
  Every \<^verbatim>\<open>REFERENCES\<close> of the schema names a table only, so it points at the primary
  key of that table, which is \<^verbatim>\<open>id\<close> in each.
\<close>

definition parent_exists :: "database \<Rightarrow> string \<Rightarrow> val option \<Rightarrow> bool" where
  "parent_exists db p v = list_ex (\<lambda>x. x ''id'' = v) (db p)"

definition fk_ok :: "database \<Rightarrow> table_def \<Rightarrow> row \<Rightarrow> bool" where
  "fk_ok db d r =
     list_all (\<lambda>(n, p). r n = None \<or> parent_exists db p (r n)) (foreign_keys d)"

text \<open>
  No \<^verbatim>\<open>REFERENCES\<close> has an \<^verbatim>\<open>ON DELETE\<close> or \<^verbatim>\<open>ON UPDATE\<close> action: a key that rows
  still reference cannot disappear. \<open>gone\<close> holds the keys a statement took from table
  \<open>t\<close>; each row that references one of them must still find it.
\<close>

definition referencing :: "string \<Rightarrow> (string \<times> string) list" where
  "referencing t =
     concat (map (\<lambda>d. map (\<lambda>(n, p). (tbl_name d, n)) (filter (\<lambda>(n, p). p = t) (foreign_keys d)))
               all_tables)"

definition still_referenced_ok :: "database \<Rightarrow> string \<Rightarrow> val option list \<Rightarrow> bool" where
  "still_referenced_ok db t gone =
     list_all (\<lambda>(ct, n). list_all (\<lambda>x. x n = None \<or> x n \<notin> set gone \<or> parent_exists db t (x n))
                            (db ct))
       (referencing t)"

subsection \<open>SELECT, INSERT, UPDATE, DELETE\<close>

text \<open>
  \<^verbatim>\<open>select(table, filter)\<close>: the rows that pass the filter and a select policy. A row
  the policies hide is left out without an error.
\<close>

definition select_rows ::
  "request_ctx \<Rightarrow> database \<Rightarrow> string \<Rightarrow> (row \<Rightarrow> bool) \<Rightarrow> error + row list" where
  "select_rows c db t wher =
     (case lookup_table t of
        None \<Rightarrow> Inl undefined_table
      | Some d \<Rightarrow>
          (case select_admission c t of
             Some e \<Rightarrow> Inl e
           | None \<Rightarrow> Inr (filter (\<lambda>r. wher r \<and> using_ok c db t FOR_SELECT r) (db t))))"

text \<open>
  The checks on a row that is about to be stored, in the order the executor makes
  them: \<^verbatim>\<open>NOT NULL\<close>, \<^verbatim>\<open>CHECK\<close>, then the unique indexes against the other rows.
\<close>

definition constraint_error :: "table_def \<Rightarrow> row list \<Rightarrow> row \<Rightarrow> error option" where
  "constraint_error d others r =
     (if \<not> not_null_ok d r then Some not_null_violation
      else if \<not> checks_ok d r then Some check_violation
      else if \<not> unique_ok d others r then Some unique_violation
      else None)"

text \<open>
  \<^verbatim>\<open>insert(table, row)\<close>, without \<^verbatim>\<open>RETURNING\<close>: the insert policies test the new row
  before the constraints do, and the foreign keys are checked last.
\<close>

definition insert_row ::
  "request_ctx \<Rightarrow> database \<Rightarrow> string \<Rightarrow> assignments \<Rightarrow> error + database" where
  "insert_row c db t vals =
     (case lookup_table t of
        None \<Rightarrow> Inl undefined_table
      | Some d \<Rightarrow>
          (case insert_admission c t d vals of
             Some e \<Rightarrow> Inl e
           | None \<Rightarrow>
               let r = new_row c d vals in
               if \<not> with_check_ok c db t FOR_INSERT r then Inl insufficient_privilege
               else
                 (case constraint_error d (db t) r of
                    Some e \<Rightarrow> Inl e
                  | None \<Rightarrow>
                      if \<not> fk_ok db d r then Inl foreign_key_violation
                      else Inr (db(t := db t @ [r])))))"

text \<open>
  \<^verbatim>\<open>update(table, filter, patch)\<close>, the filter being \<open>None\<close> for a statement with no
  \<^verbatim>\<open>WHERE\<close> clause. Its targets are the rows that pass an update policy and, when
  there is a filter, the filter and a select policy; a row the policies hide is skipped
  without an error. The rows are visited in order; each new row must pass an update
  policy (and a select policy, when there is a filter), then the constraints against
  the rows as they stand at that moment. The policies read the database as it was when
  the statement began.
\<close>

definition update_target ::
  "request_ctx \<Rightarrow> database \<Rightarrow> string \<Rightarrow> (row \<Rightarrow> bool) option \<Rightarrow> row \<Rightarrow> bool" where
  "update_target c db t wher r =
     ((case wher of None \<Rightarrow> True | Some w \<Rightarrow> w r \<and> using_ok c db t FOR_SELECT r) \<and>
      using_ok c db t FOR_UPDATE r)"

definition update_admits ::
  "request_ctx \<Rightarrow> database \<Rightarrow> string \<Rightarrow> (row \<Rightarrow> bool) option \<Rightarrow> row \<Rightarrow> bool" where
  "update_admits c db t wher r' =
     (with_check_ok c db t FOR_UPDATE r' \<and>
      (case wher of None \<Rightarrow> True | Some w \<Rightarrow> using_ok c db t FOR_SELECT r'))"

fun update_loop ::
  "table_def \<Rightarrow> (row \<Rightarrow> bool) \<Rightarrow> (row \<Rightarrow> bool) \<Rightarrow> assignments \<Rightarrow>
     row list \<Rightarrow> row list \<Rightarrow> error + row list" where
  "update_loop d tgt admits sets seen [] = Inr seen"
| "update_loop d tgt admits sets seen (r # rest) =
     (if \<not> tgt r then update_loop d tgt admits sets (seen @ [r]) rest
      else
        let r' = set_row sets r in
        if \<not> admits r' then Inl insufficient_privilege
        else
          (case constraint_error d (seen @ rest) r' of
             Some e \<Rightarrow> Inl e
           | None \<Rightarrow> update_loop d tgt admits sets (seen @ [r']) rest))"

text \<open>
  At the end of the statement the foreign keys are checked: a changed reference must
  find its parent, and a key the statement changed must not leave a reference behind.
\<close>

definition update_fk_ok :: "database \<Rightarrow> table_def \<Rightarrow> assignments \<Rightarrow> row \<Rightarrow> bool" where
  "update_fk_ok db' d sets r =
     list_all (\<lambda>(n, p). set_row sets r n = r n \<or> set_row sets r n = None \<or>
                         parent_exists db' p (set_row sets r n))
       (foreign_keys d)"

definition update_rows ::
  "request_ctx \<Rightarrow> database \<Rightarrow> string \<Rightarrow> assignments \<Rightarrow> (row \<Rightarrow> bool) option \<Rightarrow>
     error + database" where
  "update_rows c db t sets wher =
     (case lookup_table t of
        None \<Rightarrow> Inl undefined_table
      | Some d \<Rightarrow>
          (case update_admission c t d sets (wher \<noteq> None) of
             Some e \<Rightarrow> Inl e
           | None \<Rightarrow>
               (case update_loop d (update_target c db t wher) (update_admits c db t wher)
                       sets [] (db t) of
                  Inl e \<Rightarrow> Inl e
                | Inr rows' \<Rightarrow>
                    let db' = db(t := rows');
                        old = filter (update_target c db t wher) (db t)
                    in
                    if \<not> list_all (update_fk_ok db' d sets) old then Inl foreign_key_violation
                    else if \<not> still_referenced_ok db' t (map (\<lambda>r. r ''id'') old)
                    then Inl foreign_key_violation
                    else Inr db')))"

text \<open>
  \<^verbatim>\<open>DELETE FROM table\<close>, with or without \<^verbatim>\<open>WHERE\<close>: the targets are the rows that pass
  a delete policy and, when there is a filter, the filter and a select policy.
\<close>

definition delete_target ::
  "request_ctx \<Rightarrow> database \<Rightarrow> string \<Rightarrow> (row \<Rightarrow> bool) option \<Rightarrow> row \<Rightarrow> bool" where
  "delete_target c db t wher r =
     ((case wher of None \<Rightarrow> True | Some w \<Rightarrow> w r \<and> using_ok c db t FOR_SELECT r) \<and>
      using_ok c db t FOR_DELETE r)"

definition delete_rows ::
  "request_ctx \<Rightarrow> database \<Rightarrow> string \<Rightarrow> (row \<Rightarrow> bool) option \<Rightarrow> error + database" where
  "delete_rows c db t wher =
     (case lookup_table t of
        None \<Rightarrow> Inl undefined_table
      | Some d \<Rightarrow>
          (case delete_admission c t (wher \<noteq> None) of
             Some e \<Rightarrow> Inl e
           | None \<Rightarrow>
               let old = filter (delete_target c db t wher) (db t);
                   db' = db(t := filter (\<lambda>r. \<not> delete_target c db t wher r) (db t))
               in
               if \<not> still_referenced_ok db' t (map (\<lambda>r. r ''id'') old)
               then Inl foreign_key_violation
               else Inr db'))"

subsection \<open>Running statements\<close>

datatype statement =
    Select string "row \<Rightarrow> bool"
  | Insert string assignments
  | Update string assignments "(row \<Rightarrow> bool) option"
  | Delete string "(row \<Rightarrow> bool) option"

fun table_of :: "statement \<Rightarrow> string" where
  "table_of (Select t wher) = t"
| "table_of (Insert t vals) = t"
| "table_of (Update t sets wher) = t"
| "table_of (Delete t wher) = t"

text \<open>A statement that ends with an error changes nothing.\<close>

definition outcome :: "database \<Rightarrow> error + database \<Rightarrow> error option \<times> database" where
  "outcome db res = (case res of Inl e \<Rightarrow> (Some e, db) | Inr db' \<Rightarrow> (None, db'))"

fun exec :: "request_ctx \<Rightarrow> database \<Rightarrow> statement \<Rightarrow> error option \<times> database" where
  "exec c db (Select t wher) =
     (case select_rows c db t wher of Inl e \<Rightarrow> (Some e, db) | Inr rows \<Rightarrow> (None, db))"
| "exec c db (Insert t vals) = outcome db (insert_row c db t vals)"
| "exec c db (Update t sets wher) = outcome db (update_rows c db t sets wher)"
| "exec c db (Delete t wher) = outcome db (delete_rows c db t wher)"

text \<open>
  A history of the database: statements, each with the caller that issues it, run one
  after the other from a starting state. The states reachable are those a history
  produces from the empty tables the migration creates.
\<close>

fun run :: "database \<Rightarrow> (request_ctx \<times> statement) list \<Rightarrow> database" where
  "run db [] = db"
| "run db ((c, st) # rest) = run (snd (exec c db st)) rest"

section \<open>The demo account migration\<close>

text \<open>
  The second migration runs as the owner of the tables. Unless a user with the demo
  e-mail address exists, it inserts that user into \<^verbatim>\<open>auth.users\<close> under a fresh
  identifier and then a staff profile with the role \<^verbatim>\<open>doctor\<close> for it. The password
  hash \<^verbatim>\<open>crypt('Demo123!', gen_salt('bf'))\<close> and the identifier are taken as given.
\<close>

definition demo_email :: string where
  "demo_email = ''demo@chitungwizahospital.com''"

definition demo_user_values :: "request_ctx \<Rightarrow> uuid \<Rightarrow> string \<Rightarrow> assignments" where
  "demo_user_values c demo_user_id hash = [
     (''id'', Some (Uuid demo_user_id)),
     (''instance_id'', Some (Uuid 0)),
     (''email'', Some (Text demo_email)),
     (''encrypted_password'', Some (Text hash)),
     (''email_confirmed_at'', Some (Timestamptz (now_value c))),
     (''created_at'', Some (Timestamptz (now_value c))),
     (''updated_at'', Some (Timestamptz (now_value c))),
     (''raw_app_meta_data'', Some (Text ''{\"provider\":\"email\",\"providers\":[\"email\"]}'')),
     (''raw_user_meta_data'', Some (Text ''{\"name\":\"Dr. John Musara\"}'')),
     (''aud'', Some (Text ''authenticated'')),
     (''role'', Some (Text ''authenticated''))]"

definition demo_staff_values :: "uuid \<Rightarrow> assignments" where
  "demo_staff_values demo_user_id = [
     (''user_id'', Some (Uuid demo_user_id)),
     (''first_name'', Some (Text ''John'')),
     (''last_name'', Some (Text ''Musara'')),
     (''role'', Some (Text ''doctor'')),
     (''specialization'', Some (Text ''General Medicine'')),
     (''phone'', Some (Text ''+263 77 123 4567'')),
     (''email'', Some (Text demo_email)),
     (''license_number'', Some (Text ''MD-ZW-12345''))]"

definition add_demo_account :: "request_ctx \<Rightarrow> uuid \<Rightarrow> string \<Rightarrow> database \<Rightarrow> database" where
  "add_demo_account c demo_user_id hash db =
     (if list_ex (\<lambda>u. u ''email'' = Some (Text demo_email)) (db ''auth.users'') then db
      else
        let db1 = snd (exec c db (Insert ''auth.users'' (demo_user_values c demo_user_id hash)))
        in snd (exec c db1 (Insert ''staff'' (demo_staff_values demo_user_id))))"

section \<open>The lab results component\<close>

text \<open>
  \<^verbatim>\<open>LabResults.tsx\<close> is the only client code that writes to \<^verbatim>\<open>lab_results\<close>.
  \<^verbatim>\<open>AddLabTestModal.handleSubmit\<close> inserts the form data with \<^verbatim>\<open>ordered_by\<close> and the
  status \<^verbatim>\<open>pending\<close>. The form's patient and \<^verbatim>\<open>currentStaff?.id || ''\<close> are texts sent
  for \<^verbatim>\<open>uuid\<close> columns: the empty text (\<open>None\<close> here) is no \<^verbatim>\<open>uuid\<close>, and the insert
  fails on it.
\<close>

record lab_test_form =
  form_patient_id :: "uuid option"
  form_test_name :: string
  form_test_type :: string

definition AddLabTestModal_handleSubmit ::
  "request_ctx \<Rightarrow> database \<Rightarrow> lab_test_form \<Rightarrow> uuid option \<Rightarrow> error option \<times> database" where
  "AddLabTestModal_handleSubmit c db formData currentStaffId =
     (case (form_patient_id formData, currentStaffId) of
        (Some pid, Some sid) \<Rightarrow>
          exec c db (Insert ''lab_results'' [
            (''patient_id'', Some (Uuid pid)),
            (''test_name'', Some (Text (form_test_name formData))),
            (''test_type'', Some (Text (form_test_type formData))),
            (''ordered_by'', Some (Uuid sid)),
            (''status'', Some (Text ''pending''))])
      | _ \<Rightarrow> (Some invalid_text_representation, db))"

text \<open>
  \<^verbatim>\<open>updateLabResult(id, results, status)\<close> updates the row with that \<^verbatim>\<open>id\<close>:
  \<^verbatim>\<open>results\<close>, \<^verbatim>\<open>status\<close>, \<^verbatim>\<open>performed_by: currentStaff?.id\<close> (left out of the patch when
  there is no current staff) and \<^verbatim>\<open>completed_at: new Date()\<close>, the client's clock.
  \<^verbatim>\<open>AddResultsForm.handleSubmit\<close> is its only caller, with the status \<^verbatim>\<open>completed\<close>.
\<close>

definition with_id :: "uuid \<Rightarrow> row \<Rightarrow> bool" where
  "with_id i r = (r ''id'' = Some (Uuid i))"

definition updateLabResult ::
  "request_ctx \<Rightarrow> database \<Rightarrow> uuid option \<Rightarrow> timestamptz \<Rightarrow> uuid \<Rightarrow> string \<Rightarrow> string \<Rightarrow>
     error option \<times> database" where
  "updateLabResult c db currentStaffId date_now i results status =
     exec c db (Update ''lab_results''
       ([(''results'', Some (Text results)), (''status'', Some (Text status))] @
        (case currentStaffId of None \<Rightarrow> [] | Some sid \<Rightarrow> [(''performed_by'', Some (Uuid sid))]) @
        [(''completed_at'', Some (Timestamptz date_now))])
       (Some (with_id i)))"

definition AddResultsForm_handleSubmit ::
  "request_ctx \<Rightarrow> database \<Rightarrow> uuid option \<Rightarrow> timestamptz \<Rightarrow> uuid \<Rightarrow> string \<Rightarrow>
     error option \<times> database" where
  "AddResultsForm_handleSubmit c db currentStaffId date_now labResultId results =
     updateLabResult c db currentStaffId date_now labResultId results ''completed''"

text \<open>
  What the application does to the database, as far as \<^verbatim>\<open>lab_results\<close> goes: a lab
  test is ordered, results are submitted, or another component runs a statement on
  another table.
\<close>

datatype app_event =
    OrderLabTest lab_test_form "uuid option"
  | SubmitResults "uuid option" timestamptz uuid string
  | OtherStatement statement

fun app_step :: "request_ctx \<Rightarrow> database \<Rightarrow> app_event \<Rightarrow> database" where
  "app_step c db (OrderLabTest formData sid) = snd (AddLabTestModal_handleSubmit c db formData sid)"
| "app_step c db (SubmitResults sid date_now i results) =
     snd (AddResultsForm_handleSubmit c db sid date_now i results)"
| "app_step c db (OtherStatement st) = snd (exec c db st)"

fun app_run :: "database \<Rightarrow> (request_ctx \<times> app_event) list \<Rightarrow> database" where
  "app_run db [] = db"
| "app_run db ((c, ev) # rest) = app_run (app_step c db ev) rest"

fun elsewhere :: "request_ctx \<times> app_event \<Rightarrow> bool" where
  "elsewhere (c, OtherStatement st) = (table_of st \<noteq> ''lab_results'')"
| "elsewhere (c, ev) = True"

section \<open>Properties of states\<close>

text \<open>
  The identity binding: every staff row has a \<^verbatim>\<open>user_id\<close>, and no two rows have the
  same one.
\<close>

definition bound_once :: "row list \<Rightarrow> bool" where
  "bound_once rows =
     (list_all (\<lambda>s. s ''user_id'' \<noteq> None) rows \<and> distinct (map (\<lambda>s. s ''user_id'') rows))"

definition staff_inv :: "database \<Rightarrow> bool" where
  "staff_inv db = bound_once (db ''staff'')"

text \<open>The caller has a staff row bound to its identity.\<close>

definition has_staff_row :: "request_ctx \<Rightarrow> database \<Rightarrow> bool" where
  "has_staff_row c db = list_ex (is_caller c) (db ''staff'')"

text \<open>The caller has a staff row bound to its identity, with one of the roles \<open>rs\<close>.\<close>

definition has_staff_role :: "request_ctx \<Rightarrow> database \<Rightarrow> string list \<Rightarrow> bool" where
  "has_staff_role c db rs = list_ex (\<lambda>s. is_caller c s \<and> role_in rs s) (db ''staff'')"

text \<open>A lab result with a completion time has the status \<^verbatim>\<open>completed\<close>.\<close>

definition completed_only :: "row \<Rightarrow> bool" where
  "completed_only r = (r ''completed_at'' \<noteq> None \<longrightarrow> r ''status'' = Some (Text ''completed''))"

definition lab_inv :: "database \<Rightarrow> bool" where
  "lab_inv db = list_all completed_only (db ''lab_results'')"

text \<open>A filter that passes every row.\<close>

definition all_rows :: "row \<Rightarrow> bool" where
  "all_rows r = True"

section \<open>Sample data\<close>

text \<open>
  Callers and states used to evaluate the statements. The owner runs the migrations;
  the demo doctor of the second migration has the identity 7 and the staff row 1; the
  identity 8 belongs to an administrator; the identity 9 is authenticated and has no
  staff row.
\<close>

definition owner_ctx :: request_ctx where
  "owner_ctx = \<lparr> db_role = table_owner, auth_uid = 0, now_value = 0, random_uuid = 1 \<rparr>"

definition demo_doctor_ctx :: request_ctx where
  "demo_doctor_ctx = \<lparr> db_role = ''authenticated'', auth_uid = 7, now_value = 50, random_uuid = 30 \<rparr>"

definition roleless_ctx :: request_ctx where
  "roleless_ctx = \<lparr> db_role = ''authenticated'', auth_uid = 9, now_value = 60, random_uuid = 40 \<rparr>"

definition admin_ctx :: request_ctx where
  "admin_ctx = \<lparr> db_role = ''authenticated'', auth_uid = 8, now_value = 70, random_uuid = 41 \<rparr>"

text \<open>The database after the two migrations.\<close>

definition demo_db :: database where
  "demo_db = empty_db
     (''auth.users'' := [new_row owner_ctx auth_users_table (demo_user_values owner_ctx 7 ''hash'')],
      ''staff'' := [new_row owner_ctx staff_table (demo_staff_values 7)])"

text \<open>A patient, registered by the owner.\<close>

definition patient_values :: "string \<Rightarrow> string \<Rightarrow> assignments" where
  "patient_values gender nid = [
     (''first_name'', Some (Text ''Tendai'')),
     (''last_name'', Some (Text ''Moyo'')),
     (''date_of_birth'', Some (Date 33)),
     (''gender'', Some (Text gender)),
     (''phone'', Some (Text ''+263 77 000 0000'')),
     (''address'', Some (Text ''Chitungwiza'')),
     (''national_id'', Some (Text nid)),
     (''emergency_contact_name'', Some (Text ''Rudo Moyo'')),
     (''emergency_contact_phone'', Some (Text ''+263 77 111 1111''))]"

definition registrar_ctx :: request_ctx where
  "registrar_ctx = owner_ctx\<lparr> random_uuid := 20 \<rparr>"

definition clinic_db :: database where
  "clinic_db = demo_db
     (''patients'' :=
        [new_row registrar_ctx patients_table (patient_values ''female'' ''63-123456-A-42'')])"

text \<open>
  A later state of the hospital, with an administrator (identity 8, staff row 2), a
  medical record (21) and a prescription (22).
\<close>

definition admin_staff_values :: assignments where
  "admin_staff_values = [
     (''id'', Some (Uuid 2)),
     (''user_id'', Some (Uuid 8)),
     (''first_name'', Some (Text ''Grace'')),
     (''last_name'', Some (Text ''Ncube'')),
     (''role'', Some (Text ''admin'')),
     (''phone'', Some (Text ''+263 77 222 2222'')),
     (''email'', Some (Text ''admin@chitungwizahospital.com''))]"

definition record_values :: assignments where
  "record_values = [
     (''id'', Some (Uuid 21)),
     (''patient_id'', Some (Uuid 20)),
     (''doctor_id'', Some (Uuid 1)),
     (''chief_complaint'', Some (Text ''Fever'')),
     (''diagnosis'', Some (Text ''Malaria'')),
     (''treatment_plan'', Some (Text ''Artemether-lumefantrine''))]"

definition prescription_values :: assignments where
  "prescription_values = [
     (''id'', Some (Uuid 22)),
     (''medical_record_id'', Some (Uuid 21)),
     (''patient_id'', Some (Uuid 20)),
     (''doctor_id'', Some (Uuid 1)),
     (''medication_name'', Some (Text ''Coartem'')),
     (''dosage'', Some (Text ''80/480 mg'')),
     (''frequency'', Some (Text ''twice daily'')),
     (''duration'', Some (Text ''3 days''))]"

definition hospital_db :: database where
  "hospital_db = clinic_db
     (''auth.users'' := clinic_db ''auth.users'' @
         [new_row owner_ctx auth_users_table [(''id'', Some (Uuid 8))]],
      ''staff'' := clinic_db ''staff'' @ [new_row owner_ctx staff_table admin_staff_values],
      ''medical_records'' := [new_row owner_ctx medical_records_table record_values],
      ''prescriptions'' := [new_row owner_ctx prescriptions_table prescription_values])"

text \<open>The histories that lead to the first two sample states.\<close>

definition demo_history :: "(request_ctx \<times> statement) list" where
  "demo_history = [
     (owner_ctx, Insert ''auth.users'' (demo_user_values owner_ctx 7 ''hash'')),
     (owner_ctx, Insert ''staff'' (demo_staff_values 7))]"

definition clinic_history :: "(request_ctx \<times> statement) list" where
  "clinic_history = demo_history @
     [(registrar_ctx, Insert ''patients'' (patient_values ''female'' ''63-123456-A-42''))]"

text \<open>An appointment and a lab test for a patient, with no status given.\<close>

definition appointment_values :: "uuid \<Rightarrow> assignments" where
  "appointment_values pid = [
     (''patient_id'', Some (Uuid pid)),
     (''doctor_id'', Some (Uuid 1)),
     (''appointment_date'', Some (Timestamptz 90)),
     (''reason'', Some (Text ''Review''))]"

definition lab_test_values :: "uuid \<Rightarrow> assignments" where
  "lab_test_values pid = [
     (''patient_id'', Some (Uuid pid)),
     (''test_name'', Some (Text ''Malaria smear'')),
     (''test_type'', Some (Text ''Blood'')),
     (''ordered_by'', Some (Uuid 1))]"

text \<open>
  An appointment for the patient 99, who does not exist, with a status outside the
  list; a lab test ordered with a completion time already set; and the hospital with a
  pending lab test (23).
\<close>

definition stray_appointment_values :: assignments where
  "stray_appointment_values = appointment_values 99 @ [(''status'', Some (Text ''arrived''))]"

definition early_completed_values :: assignments where
  "early_completed_values = lab_test_values 20 @ [(''completed_at'', Some (Timestamptz 5))]"

definition lab_ctx :: request_ctx where
  "lab_ctx = owner_ctx\<lparr> random_uuid := 23 \<rparr>"

definition lab_order :: lab_test_form where
  "lab_order = \<lparr> form_patient_id = Some 20, form_test_name = ''Malaria smear'',
     form_test_type = ''Blood'' \<rparr>"

definition lab_db :: database where
  "lab_db = hospital_db
     (''lab_results'' := [new_row lab_ctx lab_results_table (lab_test_values 20)])"

text \<open>
  The statements of the two lab forms and of another component, run one after the
  other by the owner of the tables: a lab test is ordered, a prescription is read, and
  the results of the test are submitted.
\<close>

definition lab_history :: "(request_ctx \<times> app_event) list" where
  "lab_history = [
     (lab_ctx, OrderLabTest lab_order (Some 1)),
     (owner_ctx, OtherStatement (Select ''prescriptions'' all_rows)),
     (owner_ctx, SubmitResults (Some 1) 80 23 ''negative'')]"

section \<open>Basic facts\<close>

lemma lookup_table_simps:
  "lookup_table ''staff'' = Some staff_table"
  "lookup_table ''patients'' = Some patients_table"
  "lookup_table ''appointments'' = Some appointments_table"
  "lookup_table ''medical_records'' = Some medical_records_table"
  "lookup_table ''vitals'' = Some vitals_table"
  "lookup_table ''prescriptions'' = Some prescriptions_table"
  "lookup_table ''lab_results'' = Some lab_results_table"
  "lookup_table ''auth.users'' = Some auth_users_table"
  by (simp_all add: lookup_table_def all_tables_def schema_def staff_table_def patients_table_def
      appointments_table_def medical_records_table_def vitals_table_def prescriptions_table_def
      lab_results_table_def auth_users_table_def)

lemma table_names: "map tbl_name schema = rls_enabled"
  by (simp add: schema_def rls_enabled_def staff_table_def patients_table_def
      appointments_table_def medical_records_table_def vitals_table_def prescriptions_table_def
      lab_results_table_def)

lemma lookup_rls_enabled: "t \<in> set rls_enabled \<Longrightarrow> \<exists>d. lookup_table t = Some d"
  by (auto simp: rls_enabled_def lookup_table_simps)

lemma snd_outcome_Inl [simp]: "snd (outcome db (Inl e)) = db"
  by (simp add: outcome_def)

lemma snd_outcome_Inr [simp]: "snd (outcome db (Inr db')) = db'"
  by (simp add: outcome_def)

lemma fst_outcome_Inl [simp]: "fst (outcome db (Inl e)) = Some e"
  by (simp add: outcome_def)

lemma fst_outcome_Inr [simp]: "fst (outcome db (Inr db')) = None"
  by (simp add: outcome_def)

subsection \<open>Statements without a target\<close>

lemma update_loop_no_target:
  "\<forall>r \<in> set rows. \<not> tgt r \<Longrightarrow> update_loop d tgt admits sets seen rows = Inr (seen @ rows)"
  by (induction rows arbitrary: seen) simp_all

lemma still_referenced_ok_Nil [simp]: "still_referenced_ok db t []"
  by (simp add: still_referenced_ok_def list_all_iff split: prod.splits)

lemma filter_none: "\<forall>r \<in> set rows. \<not> P r \<Longrightarrow> filter P rows = []"
  by (induction rows) simp_all

lemma update_rows_no_target:
  assumes "\<forall>r \<in> set (db t). \<not> update_target c db t wher r"
  shows "snd (exec c db (Update t sets wher)) = db"
proof -
  have "filter (update_target c db t wher) (db t) = []"
    using assms by (rule filter_none)
  then show ?thesis
    using assms
    by (simp add: update_rows_def update_loop_no_target Let_def
        split: option.splits sum.splits)
qed

lemma delete_rows_no_target:
  assumes "\<forall>r \<in> set (db t). \<not> delete_target c db t wher r"
  shows "snd (exec c db (Delete t wher)) = db"
proof -
  have "filter (delete_target c db t wher) (db t) = []"
    using assms by (rule filter_none)
  moreover have "filter (\<lambda>r. \<not> delete_target c db t wher r) (db t) = db t"
    using assms by (simp add: filter_id_conv)
  ultimately show ?thesis
    by (simp add: delete_rows_def Let_def split: option.splits)
qed

subsection \<open>A statement changes its own table only\<close>

lemma exec_frame: "t \<noteq> table_of st \<Longrightarrow> snd (exec c db st) t = db t"
proof (cases st)
  case (Select t' w)
  then show ?thesis by (simp split: sum.splits)
next
  case (Insert t' v)
  assume "t \<noteq> table_of st"
  with Insert show ?thesis
    by (auto simp: insert_row_def Let_def split: option.splits)
next
  case (Update t' s w)
  assume "t \<noteq> table_of st"
  with Update show ?thesis
    by (auto simp: update_rows_def Let_def split: option.splits sum.splits)
next
  case (Delete t' w)
  assume "t \<noteq> table_of st"
  with Delete show ?thesis
    by (auto simp: delete_rows_def Let_def split: option.splits)
qed

lemma insert_row_appends:
  "\<exists>new. snd (exec c db (Insert t vals)) t = db t @ new"
  by (auto simp: insert_row_def Let_def outcome_def split: option.splits)

subsection \<open>Prescriptions\<close>

lemma no_update_policy_prescriptions:
  "applicable c ''prescriptions'' FOR_UPDATE = []"
  "applicable c ''prescriptions'' FOR_DELETE = []"
  by (simp_all add: applicable_def policies_def pol_def)

lemma prescriptions_not_bypassed:
  "db_role c \<noteq> table_owner \<Longrightarrow> \<not> bypasses_rls c ''prescriptions''"
  by (simp add: bypasses_rls_def rls_enabled_def)

lemma prescriptions_denied:
  assumes "db_role c \<noteq> table_owner"
  shows "\<not> using_ok c db ''prescriptions'' FOR_UPDATE r"
    and "\<not> using_ok c db ''prescriptions'' FOR_DELETE r"
  using assms
  by (simp_all add: using_ok_def using_quals_def no_update_policy_prescriptions
      prescriptions_not_bypassed)

lemma prescriptions_step:
  assumes "db_role c \<noteq> table_owner"
  shows "\<exists>new. snd (exec c db st) ''prescriptions'' = db ''prescriptions'' @ new"
proof (cases "table_of st = ''prescriptions''")
  case False
  then show ?thesis by (simp add: exec_frame)
next
  case True
  show ?thesis
  proof (cases st)
    case (Select t w)
    then show ?thesis by (simp split: sum.splits)
  next
    case (Insert t v)
    with True show ?thesis using insert_row_appends [of c db t v] by simp
  next
    case (Update t s w)
    with True have "snd (exec c db st) = db"
      using assms
      by (simp only: table_of.simps)
         (rule update_rows_no_target, simp add: update_target_def prescriptions_denied)
    then show ?thesis by simp
  next
    case (Delete t w)
    with True have "snd (exec c db st) = db"
      using assms
      by (simp only: table_of.simps)
         (rule delete_rows_no_target, simp add: delete_target_def prescriptions_denied)
    then show ?thesis by simp
  qed
qed

lemma prescriptions_history:
  "list_all (\<lambda>cs. db_role (fst cs) \<noteq> table_owner) h \<Longrightarrow>
   \<exists>new. run db h ''prescriptions'' = db ''prescriptions'' @ new"
proof (induction h arbitrary: db)
  case Nil
  then show ?case by simp
next
  case (Cons cs h)
  obtain c st where cs: "cs = (c, st)" by (cases cs)
  with Cons.prems have c: "db_role c \<noteq> table_owner"
    and h: "list_all (\<lambda>cs. db_role (fst cs) \<noteq> table_owner) h" by simp_all
  from prescriptions_step [OF c] obtain n1
    where n1: "snd (exec c db st) ''prescriptions'' = db ''prescriptions'' @ n1" by blast
  from Cons.IH [OF h] obtain n2
    where "run (snd (exec c db st)) h ''prescriptions'' = snd (exec c db st) ''prescriptions'' @ n2"
    by blast
  with n1 cs show ?case by simp
qed

text \<open>
  C10. The table \<^verbatim>\<open>prescriptions\<close> has row-level security enabled and its policies are
  one for \<^verbatim>\<open>SELECT\<close> and one for \<^verbatim>\<open>INSERT\<close>. So for every caller other than the owner of
  the tables, whatever the staff role, no prescription row passes an update or a delete
  policy, an \<^verbatim>\<open>UPDATE\<close> or \<^verbatim>\<open>DELETE\<close> on the table leaves the database as it was, and
  through any history of such callers the rows once stored stay, unchanged and in place.
\<close>

theorem prescriptions_immutable:
  assumes "db_role c \<noteq> table_owner"
  shows "''prescriptions'' \<in> set rls_enabled \<and>
         map pol_cmd (filter (\<lambda>p. pol_table p = ''prescriptions'') policies)
           = [FOR_SELECT, FOR_INSERT] \<and>
         \<not> using_ok c db ''prescriptions'' FOR_UPDATE r \<and>
         \<not> using_ok c db ''prescriptions'' FOR_DELETE r \<and>
         snd (exec c db (Update ''prescriptions'' sets wher)) = db \<and>
         snd (exec c db (Delete ''prescriptions'' wher)) = db \<and>
         (list_all (\<lambda>cs. db_role (fst cs) \<noteq> table_owner) h \<longrightarrow>
            (\<exists>new. run db h ''prescriptions'' = db ''prescriptions'' @ new))"
proof -
  have "''prescriptions'' \<in> set rls_enabled"
    by (simp add: rls_enabled_def)
  moreover have "map pol_cmd (filter (\<lambda>p. pol_table p = ''prescriptions'') policies)
      = [FOR_SELECT, FOR_INSERT]"
    by (simp add: policies_def pol_def)
  moreover have "snd (exec c db (Update ''prescriptions'' sets wher)) = db"
    by (rule update_rows_no_target) (simp add: update_target_def prescriptions_denied [OF assms])
  moreover have "snd (exec c db (Delete ''prescriptions'' wher)) = db"
    by (rule delete_rows_no_target) (simp add: delete_target_def prescriptions_denied [OF assms])
  ultimately show ?thesis
    using prescriptions_denied [OF assms] prescriptions_history by blast
qed

theorem prescriptions_immutable_witness:
  "db_role admin_ctx \<noteq> table_owner \<and>
   role_in [''admin''] (hd (filter (is_caller admin_ctx) (hospital_db ''staff''))) \<and>
   length (hospital_db ''prescriptions'') = 1 \<and>
   exec admin_ctx hospital_db
     (Update ''prescriptions'' [(''dosage'', Some (Text ''160/960 mg''))] None) = (None, hospital_db) \<and>
   exec admin_ctx hospital_db (Delete ''prescriptions'' None) = (None, hospital_db)"
proof -
  let ?u = "Update ''prescriptions'' [(''dosage'', Some (Text ''160/960 mg''))] None"
  have a: "db_role admin_ctx \<noteq> table_owner"
    by (simp add: admin_ctx_def table_owner_def)
  have b: "role_in [''admin''] (hd (filter (is_caller admin_ctx) (hospital_db ''staff'')))"
    by code_simp
  have c: "length (hospital_db ''prescriptions'') = 1"
    by code_simp
  have d: "fst (exec admin_ctx hospital_db ?u) = None"
    by code_simp
  have e: "fst (exec admin_ctx hospital_db (Delete ''prescriptions'' None)) = None"
    by code_simp
  from prescriptions_immutable [OF a, of hospital_db]
  have "snd (exec admin_ctx hospital_db ?u) = hospital_db"
    and "snd (exec admin_ctx hospital_db (Delete ''prescriptions'' None)) = hospital_db"
    by blast+
  with a b c d e show ?thesis
    by (simp add: prod_eq_iff del: exec.simps)
qed

subsection \<open>The policies of an authenticated caller do not expand\<close>

lemma authenticated_not_owner: "db_role c = ''authenticated'' \<Longrightarrow> db_role c \<noteq> table_owner"
  by (simp add: table_owner_def)

lemma rls_not_bypassed:
  "db_role c = ''authenticated'' \<Longrightarrow> t \<in> set rls_enabled \<Longrightarrow> \<not> bypasses_rls c t"
  by (simp add: bypasses_rls_def table_owner_def)

lemma privileged_table:
  "db_role c \<noteq> table_owner \<Longrightarrow> has_privilege c t \<Longrightarrow> t \<in> set rls_enabled"
  by (simp add: has_privilege_def table_names)

text \<open>
  The select policies of \<^verbatim>\<open>staff\<close> include \<^verbatim>\<open>Admins can manage staff\<close>, which is
  \<^verbatim>\<open>FOR ALL\<close> and selects from \<^verbatim>\<open>staff\<close>: a sub-select from \<^verbatim>\<open>staff\<close> never expands.
\<close>

lemma staff_select_policies:
  assumes "db_role c = ''authenticated''"
  shows "has_sub_links (applicable c ''staff'' FOR_SELECT)"
    and "concat (map sub_selects (using_quals (applicable c ''staff'' FOR_SELECT))) = [''staff'']"
  using assms
  by (simp_all add: applicable_def policies_def pol_def has_sub_links_def using_quals_def)

lemma staff_never_expands:
  assumes "db_role c = ''authenticated''"
  shows "\<not> expand_select c active ''staff''"
proof -
  have nb: "\<not> bypasses_rls c ''staff''"
    using assms by (simp add: rls_not_bypassed rls_enabled_def)
  have inner: "\<not> expand_select c (''staff'' # active) ''staff''"
    by (subst expand_select.simps) (simp add: nb staff_select_policies [OF assms])
  show ?thesis
    by (subst expand_select.simps) (simp add: nb staff_select_policies [OF assms] inner)
qed

text \<open>
  Every policy has one expression, \<^verbatim>\<open>WITH CHECK\<close> for the insert policies and \<^verbatim>\<open>USING\<close>
  for the others, and the only sub-select is the one from \<^verbatim>\<open>staff\<close>.
\<close>

lemma policy_shape:
  assumes "p \<in> set policies"
  shows "(pol_with_check p = None \<and> pol_using p \<noteq> None \<and> pol_cmd p \<noteq> FOR_INSERT) \<or>
         (pol_using p = None \<and> pol_with_check p \<noteq> None \<and> pol_cmd p = FOR_INSERT)"
  using assms unfolding policies_def pol_def
  by (elim set_ConsD [elim_format] disjE) simp_all

lemma sub_selects_staff: "sub_selects q \<noteq> [] \<Longrightarrow> sub_selects q = [''staff'']"
  by (cases q) simp_all

lemma has_sub_linksD:
  assumes "has_sub_links ps"
  shows "\<exists>p \<in> set ps. \<exists>q. (pol_using p = Some q \<or> pol_with_check p = Some q) \<and>
           sub_selects q \<noteq> []"
proof -
  from assms obtain p where p: "p \<in> set ps"
    and "(case pol_using p of Some q \<Rightarrow> sub_selects q \<noteq> [] | None \<Rightarrow> False) \<or>
         (case pol_with_check p of Some q \<Rightarrow> sub_selects q \<noteq> [] | None \<Rightarrow> False)"
    unfolding has_sub_links_def list_ex_iff by blast
  then have "\<exists>q. (pol_using p = Some q \<or> pol_with_check p = Some q) \<and> sub_selects q \<noteq> []"
    by (cases "pol_using p"; cases "pol_with_check p") auto
  with p show ?thesis by blast
qed

lemma has_sub_linksI:
  assumes "p \<in> set ps" and "pol_using p = Some q" and "sub_selects q \<noteq> []"
  shows "has_sub_links ps"
  unfolding has_sub_links_def list_ex_iff
  using assms by (intro bexI [of _ p]) simp_all

lemma staff_in_check_quals:
  assumes "has_sub_links ps" and "set ps \<subseteq> set policies"
  shows "''staff'' \<in> set (concat (map sub_selects (check_quals ps)))"
proof -
  from has_sub_linksD [OF assms(1)] obtain p q where p: "p \<in> set ps"
    and q: "pol_using p = Some q \<or> pol_with_check p = Some q" "sub_selects q \<noteq> []"
    by blast
  from p assms(2) have "p \<in> set policies" by auto
  from policy_shape [OF this] q(1)
  have "(case pol_with_check p of Some q \<Rightarrow> [q]
         | None \<Rightarrow> (case pol_using p of Some q \<Rightarrow> [q] | None \<Rightarrow> [])) = [q]"
    by auto
  with p sub_selects_staff [OF q(2)] show ?thesis
    by (force simp: check_quals_def)
qed

lemma staff_in_using_quals:
  assumes "has_sub_links ps" and "set ps \<subseteq> set policies"
    and "\<forall>p \<in> set ps. pol_cmd p \<noteq> FOR_INSERT"
  shows "''staff'' \<in> set (concat (map sub_selects (using_quals ps)))"
proof -
  from has_sub_linksD [OF assms(1)] obtain p q where p: "p \<in> set ps"
    and q: "pol_using p = Some q \<or> pol_with_check p = Some q" "sub_selects q \<noteq> []"
    by blast
  from p assms(2) have "p \<in> set policies" by auto
  from policy_shape [OF this] q(1) p assms(3) have "pol_using p = Some q"
    by auto
  with p sub_selects_staff [OF q(2)] show ?thesis
    by (force simp: using_quals_def)
qed

lemma applicable_subset: "set (applicable c t cmd) \<subseteq> set policies"
  by (auto simp: applicable_def)

lemma applicable_not_insert:
  "cmd \<noteq> FOR_INSERT \<Longrightarrow> \<forall>p \<in> set (applicable c t cmd). pol_cmd p \<noteq> FOR_INSERT"
  by (auto simp: applicable_def)

text \<open>Every table of the schema has a select policy and an insert policy with a sub-select.\<close>

lemma select_policies_by_table:
  assumes "db_role c = ''authenticated''"
  shows "has_sub_links (applicable c ''staff'' FOR_SELECT)"
    and "has_sub_links (applicable c ''patients'' FOR_SELECT)"
    and "has_sub_links (applicable c ''appointments'' FOR_SELECT)"
    and "has_sub_links (applicable c ''medical_records'' FOR_SELECT)"
    and "has_sub_links (applicable c ''vitals'' FOR_SELECT)"
    and "has_sub_links (applicable c ''prescriptions'' FOR_SELECT)"
    and "has_sub_links (applicable c ''lab_results'' FOR_SELECT)"
  using assms
  by (simp_all add: applicable_def policies_def pol_def has_sub_links_def)

lemma insert_policies_by_table:
  assumes "db_role c = ''authenticated''"
  shows "has_sub_links (applicable c ''staff'' FOR_INSERT)"
    and "has_sub_links (applicable c ''patients'' FOR_INSERT)"
    and "has_sub_links (applicable c ''appointments'' FOR_INSERT)"
    and "has_sub_links (applicable c ''medical_records'' FOR_INSERT)"
    and "has_sub_links (applicable c ''vitals'' FOR_INSERT)"
    and "has_sub_links (applicable c ''prescriptions'' FOR_INSERT)"
    and "has_sub_links (applicable c ''lab_results'' FOR_INSERT)"
  using assms
  by (simp_all add: applicable_def policies_def pol_def has_sub_links_def)

lemma select_policy_with_sub_select:
  assumes "db_role c = ''authenticated''" and "t \<in> set rls_enabled"
  shows "has_sub_links (applicable c t FOR_SELECT)"
  using assms(2) select_policies_by_table [OF assms(1)]
  by (auto simp: rls_enabled_def)

lemma insert_policy_with_sub_select:
  assumes "db_role c = ''authenticated''" and "t \<in> set rls_enabled"
  shows "has_sub_links (applicable c t FOR_INSERT)"
  using assms(2) insert_policies_by_table [OF assms(1)]
  by (auto simp: rls_enabled_def)

lemma has_sub_links_append: "has_sub_links (ps @ qs) = (has_sub_links ps \<or> has_sub_links qs)"
  by (auto simp: has_sub_links_def list_ex_iff)

text \<open>
  So for an authenticated caller and a table of the schema, the expansion fails for
  every select, every insert and every update or delete with a \<^verbatim>\<open>WHERE\<close> clause; and
  where the expansion of an update or delete without one succeeds, the table has no
  policy for the command, and no row is a target.
\<close>

lemma blocked_by_staff:
  assumes "db_role c = ''authenticated''" and "t \<in> set rls_enabled"
    and "has_sub_links (fetched_policies c t cmd reads)"
    and "''staff'' \<in> set (concat (map sub_selects (added_quals c t cmd reads)))"
  shows "\<not> expand_policies c t cmd reads"
  using assms(3,4) rls_not_bypassed [OF assms(1,2)] staff_never_expands [OF assms(1), of "[t]"]
  by (auto simp: expand_policies_def list_all_iff)

lemma select_blocked:
  assumes "db_role c = ''authenticated''" and "t \<in> set rls_enabled"
  shows "\<not> expand_policies c t FOR_SELECT reads"
proof (rule blocked_by_staff [OF assms])
  note h = select_policy_with_sub_select [OF assms]
  then show "has_sub_links (fetched_policies c t FOR_SELECT reads)"
    by (simp add: fetched_policies_def)
  from staff_in_using_quals [OF h applicable_subset applicable_not_insert]
  show "''staff'' \<in> set (concat (map sub_selects (added_quals c t FOR_SELECT reads)))"
    by (simp add: added_quals_def)
qed

lemma insert_blocked:
  assumes "db_role c = ''authenticated''" and "t \<in> set rls_enabled"
  shows "\<not> expand_policies c t FOR_INSERT reads"
proof (rule blocked_by_staff [OF assms])
  note h = insert_policy_with_sub_select [OF assms]
  then show "has_sub_links (fetched_policies c t FOR_INSERT reads)"
    by (simp add: fetched_policies_def has_sub_links_append)
  from staff_in_check_quals [OF h applicable_subset]
  show "''staff'' \<in> set (concat (map sub_selects (added_quals c t FOR_INSERT reads)))"
    by (simp add: added_quals_def)
qed

lemma reading_blocked:
  assumes "db_role c = ''authenticated''" and "t \<in> set rls_enabled"
  shows "\<not> expand_policies c t FOR_UPDATE True" and "\<not> expand_policies c t FOR_DELETE True"
proof -
  note h = select_policy_with_sub_select [OF assms]
  note s = staff_in_using_quals [OF h applicable_subset applicable_not_insert]
  show "\<not> expand_policies c t FOR_UPDATE True"
    using h s by (intro blocked_by_staff [OF assms])
      (simp_all add: fetched_policies_def added_quals_def has_sub_links_append)
  show "\<not> expand_policies c t FOR_DELETE True"
    using h s by (intro blocked_by_staff [OF assms])
      (simp_all add: fetched_policies_def added_quals_def has_sub_links_append)
qed

lemma local_quals_select_only:
  assumes "p \<in> set policies" and "pol_cmd p \<noteq> FOR_SELECT" and "pol_using p = Some q"
  shows "sub_selects q \<noteq> []"
  using assms unfolding policies_def pol_def
  by (elim set_ConsD [elim_format] disjE) auto

lemma no_target_when_expanded:
  assumes "db_role c = ''authenticated''" and "t \<in> set rls_enabled"
    and "cmd = FOR_UPDATE \<or> cmd = FOR_DELETE" and "expand_policies c t cmd reads"
  shows "\<not> using_ok c db t cmd r"
proof
  assume u: "using_ok c db t cmd r"
  note nb = rls_not_bypassed [OF assms(1,2)]
  from u nb obtain q where q: "q \<in> set (using_quals (applicable c t cmd))"
    by (auto simp: using_ok_def list_ex_iff)
  then obtain p where p: "p \<in> set (applicable c t cmd)" "pol_using p = Some q"
    by (auto simp: using_quals_def split: option.splits)
  have ne: "cmd \<noteq> FOR_INSERT" using assms(3) by auto
  have pp: "p \<in> set policies" using p(1) applicable_subset by auto
  have "pol_cmd p \<noteq> FOR_SELECT"
    using p(1) assms(3) by (auto simp: applicable_def)
  from local_quals_select_only [OF pp this p(2)]
  have h: "has_sub_links (applicable c t cmd)"
    using p by (intro has_sub_linksI [of p _ q])
  from staff_in_using_quals [OF h applicable_subset applicable_not_insert [OF ne]]
  have "''staff'' \<in> set (concat (map sub_selects (added_quals c t cmd reads)))"
    using assms(3) by (auto simp: added_quals_def)
  moreover from h have "has_sub_links (fetched_policies c t cmd reads)"
    by (simp add: fetched_policies_def has_sub_links_append)
  ultimately have "\<not> expand_policies c t cmd reads"
    by (intro blocked_by_staff [OF assms(1,2)])
  with assms(4) show False by simp
qed

subsection \<open>What an authenticated caller gets\<close>

lemma authenticated_select:
  assumes "db_role c = ''authenticated''" and "t \<in> set rls_enabled"
  shows "select_rows c db t wher = Inl invalid_object_definition"
proof -
  from lookup_rls_enabled [OF assms(2)] obtain d where "lookup_table t = Some d" ..
  with select_blocked [OF assms] show ?thesis
    by (simp add: select_rows_def select_admission_def)
qed

lemma authenticated_select_any:
  assumes "db_role c = ''authenticated''"
  shows "\<exists>e. select_rows c db t wher = Inl e"
proof (cases "t \<in> set rls_enabled")
  case True
  with assms show ?thesis by (simp add: authenticated_select)
next
  case False
  with assms have "\<not> has_privilege c t"
    using privileged_table authenticated_not_owner by blast
  then show ?thesis
    by (simp add: select_rows_def select_admission_def split: option.splits)
qed

lemma authenticated_insert_admission:
  assumes "db_role c = ''authenticated''"
  shows "insert_admission c t d vals \<noteq> None"
proof (cases "t \<in> set rls_enabled")
  case True
  with assms show ?thesis
    by (simp add: insert_admission_def insert_blocked split: option.splits)
next
  case False
  with assms have "\<not> has_privilege c t"
    using privileged_table authenticated_not_owner by blast
  then show ?thesis
    by (simp add: insert_admission_def split: option.splits)
qed

lemma authenticated_insert:
  assumes "db_role c = ''authenticated''"
  shows "\<exists>e. exec c db (Insert t vals) = (Some e, db)"
proof (cases "lookup_table t")
  case None
  then show ?thesis by (simp add: insert_row_def outcome_def)
next
  case (Some d)
  from authenticated_insert_admission [OF assms, of t d vals]
  obtain e where "insert_admission c t d vals = Some e" by blast
  with Some show ?thesis by (simp add: insert_row_def outcome_def)
qed

lemma authenticated_update:
  assumes "db_role c = ''authenticated''"
  shows "snd (exec c db (Update t sets wher)) = db"
proof (cases "lookup_table t")
  case None
  then show ?thesis by (simp add: update_rows_def)
next
  case (Some d)
  show ?thesis
  proof (cases "update_admission c t d sets (wher \<noteq> None)")
    case (Some e)
    with \<open>lookup_table t = Some d\<close> show ?thesis by (simp add: update_rows_def)
  next
    case None
    then have ex: "expand_policies c t FOR_UPDATE (wher \<noteq> None)" and "has_privilege c t"
      by (auto simp: update_admission_def split: option.splits if_splits)
    with assms have t: "t \<in> set rls_enabled"
      using privileged_table authenticated_not_owner by blast
    show ?thesis
      by (rule update_rows_no_target)
         (simp add: update_target_def no_target_when_expanded [OF assms t _ ex])
  qed
qed

lemma authenticated_delete:
  assumes "db_role c = ''authenticated''"
  shows "snd (exec c db (Delete t wher)) = db"
proof (cases "lookup_table t")
  case None
  then show ?thesis by (simp add: delete_rows_def)
next
  case (Some d)
  show ?thesis
  proof (cases "delete_admission c t (wher \<noteq> None)")
    case (Some e)
    with \<open>lookup_table t = Some d\<close> show ?thesis by (simp add: delete_rows_def)
  next
    case None
    then have ex: "expand_policies c t FOR_DELETE (wher \<noteq> None)" and "has_privilege c t"
      by (auto simp: delete_admission_def split: option.splits if_splits)
    with assms have t: "t \<in> set rls_enabled"
      using privileged_table authenticated_not_owner by blast
    show ?thesis
      by (rule delete_rows_no_target)
         (simp add: delete_target_def no_target_when_expanded [OF assms t _ ex])
  qed
qed

text \<open>
  C1. For every authenticated caller, and so for one with no staff row bound to its
  identity, every operation on every table is denied: no select returns a row, on a
  table of the schema it ends with the error 42P17, the lookup of the caller's own
  staff profile included; every insert is rejected with an error; and every update and
  every delete leaves the database as it was.
\<close>

theorem roleless_denied:
  assumes "db_role c = ''authenticated''"
  shows "(\<exists>e. select_rows c db t wher = Inl e) \<and>
         (t \<in> set rls_enabled \<longrightarrow> select_rows c db t wher = Inl invalid_object_definition) \<and>
         select_rows c db ''staff'' (is_caller c) = Inl invalid_object_definition \<and>
         (\<exists>e. exec c db (Insert t vals) = (Some e, db)) \<and>
         snd (exec c db (Update t sets upd_filter)) = db \<and>
         snd (exec c db (Delete t del_filter)) = db"
proof -
  have "select_rows c db ''staff'' (is_caller c) = Inl invalid_object_definition"
    using assms by (simp add: authenticated_select rls_enabled_def)
  then show ?thesis
    using authenticated_select_any [OF assms] authenticated_select [OF assms]
      authenticated_insert [OF assms] authenticated_update [OF assms]
      authenticated_delete [OF assms]
    by (simp del: exec.simps)
qed

theorem roleless_denied_witness:
  "db_role roleless_ctx = ''authenticated'' \<and>
   \<not> has_staff_row roleless_ctx hospital_db \<and>
   length (hospital_db ''staff'') = 2 \<and>
   select_rows roleless_ctx hospital_db ''staff'' all_rows = Inl invalid_object_definition \<and>
   select_rows roleless_ctx hospital_db ''patients'' all_rows = Inl invalid_object_definition \<and>
   fst (exec roleless_ctx hospital_db (Insert ''appointments'' (appointment_values 20)))
     = Some invalid_object_definition \<and>
   snd (exec roleless_ctx hospital_db (Insert ''appointments'' (appointment_values 20)))
     = hospital_db \<and>
   snd (exec roleless_ctx hospital_db (Update ''patients'' [(''phone'', None)] (Some all_rows)))
     = hospital_db \<and>
   snd (exec roleless_ctx hospital_db (Delete ''staff'' None)) = hospital_db"
proof -
  have a: "db_role roleless_ctx = ''authenticated''"
    by (simp add: roleless_ctx_def)
  have b: "\<not> has_staff_row roleless_ctx hospital_db"
    by code_simp
  have c: "length (hospital_db ''staff'') = 2"
    by code_simp
  have d: "fst (exec roleless_ctx hospital_db (Insert ''appointments'' (appointment_values 20)))
      = Some invalid_object_definition"
    by code_simp
  from roleless_denied [OF a, of hospital_db "''appointments''" all_rows "appointment_values 20"
      "[]" None None]
  obtain e where "exec roleless_ctx hospital_db (Insert ''appointments'' (appointment_values 20))
      = (Some e, hospital_db)"
    by blast
  then have e: "snd (exec roleless_ctx hospital_db
      (Insert ''appointments'' (appointment_values 20))) = hospital_db"
    by (simp del: exec.simps)
  show ?thesis
    using a b c d e
      roleless_denied [OF a, of hospital_db "''staff''" all_rows "[]" "[]" None None]
      roleless_denied [OF a, of hospital_db "''patients''" all_rows "[]" "[(''phone'', None)]"
        "Some all_rows" None]
    by (simp add: rls_enabled_def del: exec.simps)
qed

text \<open>
  C2. The code at a caller the claim lets through: the demo doctor has a staff row, and
  the staff row looked up is the doctor's own; the select on \<^verbatim>\<open>staff\<close> ends with the
  error 42P17 and returns nothing.
\<close>

theorem staff_select_fails:
  "db_role demo_doctor_ctx = ''authenticated'' \<and>
   has_staff_row demo_doctor_ctx demo_db \<and>
   is_caller demo_doctor_ctx (hd (demo_db ''staff'')) \<and>
   select_rows demo_doctor_ctx demo_db ''staff'' (is_caller demo_doctor_ctx)
     = Inl invalid_object_definition"
proof -
  have a: "db_role demo_doctor_ctx = ''authenticated''"
    by (simp add: demo_doctor_ctx_def)
  have "has_staff_row demo_doctor_ctx demo_db"
    and "is_caller demo_doctor_ctx (hd (demo_db ''staff''))"
    by code_simp+
  with a show ?thesis
    by (simp add: authenticated_select rls_enabled_def)
qed

text \<open>
  C3. The code at a caller the claim lets through: the demo doctor has a staff row with
  the role \<^verbatim>\<open>doctor\<close>, and the lab result 23 is pending; the results form, and an update
  of the status with no \<^verbatim>\<open>WHERE\<close> clause as well, end with the error 42P17 and leave the
  database as it was.
\<close>

theorem lab_results_update_fails:
  "db_role demo_doctor_ctx = ''authenticated'' \<and>
   has_staff_role demo_doctor_ctx lab_db [''lab_technician'', ''doctor'', ''admin''] \<and>
   length (filter (with_id 23) (lab_db ''lab_results'')) = 1 \<and>
   AddResultsForm_handleSubmit demo_doctor_ctx lab_db (Some 1) 80 23 ''negative''
     = (Some invalid_object_definition, lab_db) \<and>
   exec demo_doctor_ctx lab_db (Update ''lab_results'' [(''status'', Some (Text ''completed''))] None)
     = (Some invalid_object_definition, lab_db)"
proof -
  have a: "db_role demo_doctor_ctx = ''authenticated''"
    by (simp add: demo_doctor_ctx_def)
  have b: "has_staff_role demo_doctor_ctx lab_db [''lab_technician'', ''doctor'', ''admin'']"
    by code_simp
  have c: "length (filter (with_id 23) (lab_db ''lab_results'')) = 1"
    by code_simp
  have d: "fst (AddResultsForm_handleSubmit demo_doctor_ctx lab_db (Some 1) 80 23 ''negative'')
      = Some invalid_object_definition"
    by code_simp
  have e: "fst (exec demo_doctor_ctx lab_db
      (Update ''lab_results'' [(''status'', Some (Text ''completed''))] None))
      = Some invalid_object_definition"
    by code_simp
  have f: "snd (AddResultsForm_handleSubmit demo_doctor_ctx lab_db (Some 1) 80 23 ''negative'')
      = lab_db"
    using a by (simp add: AddResultsForm_handleSubmit_def updateLabResult_def
        authenticated_update del: exec.simps)
  have g: "snd (exec demo_doctor_ctx lab_db
      (Update ''lab_results'' [(''status'', Some (Text ''completed''))] None)) = lab_db"
    using a by (rule authenticated_update)
  from a b c d e f g show ?thesis
    by (simp add: prod_eq_iff del: exec.simps)
qed

text \<open>
  C4. The code at a caller the claim lets through: the demo doctor has a staff row with
  the role \<^verbatim>\<open>doctor\<close>, and there is a medical record; the select on
  \<^verbatim>\<open>medical_records\<close> ends with the error 42P17 and returns nothing.
\<close>

theorem medical_records_select_fails:
  "db_role demo_doctor_ctx = ''authenticated'' \<and>
   has_staff_role demo_doctor_ctx hospital_db [''doctor'', ''nurse'', ''admin''] \<and>
   length (hospital_db ''medical_records'') = 1 \<and>
   select_rows demo_doctor_ctx hospital_db ''medical_records'' all_rows
     = Inl invalid_object_definition"
proof -
  have a: "db_role demo_doctor_ctx = ''authenticated''"
    by (simp add: demo_doctor_ctx_def)
  have "has_staff_role demo_doctor_ctx hospital_db [''doctor'', ''nurse'', ''admin'']"
    and "length (hospital_db ''medical_records'') = 1"
    by code_simp+
  with a show ?thesis
    by (simp add: authenticated_select rls_enabled_def)
qed

subsection \<open>What a successful insert has passed\<close>

lemma lookup_schema:
  "d \<in> set schema \<Longrightarrow> lookup_table (tbl_name d) = Some d"
  unfolding schema_def
  by (elim set_ConsD [elim_format] disjE)
     (simp_all add: lookup_table_simps staff_table_def patients_table_def
       appointments_table_def medical_records_table_def vitals_table_def
       prescriptions_table_def lab_results_table_def)

lemma insert_row_Inr:
  assumes "insert_row c db t vals = Inr db'" and "lookup_table t = Some d"
  shows "db' = db(t := db t @ [new_row c d vals])"
    and "insert_admission c t d vals = None"
    and "with_check_ok c db t FOR_INSERT (new_row c d vals)"
    and "constraint_error d (db t) (new_row c d vals) = None"
    and "fk_ok db d (new_row c d vals)"
  using assms
  by (auto simp: insert_row_def Let_def split: option.splits if_splits)

lemma exec_insert_ok:
  assumes "fst (exec c db (Insert t vals)) = None" and "lookup_table t = Some d"
  shows "snd (exec c db (Insert t vals)) = db(t := db t @ [new_row c d vals])"
proof -
  from assms(1) obtain db' where r: "insert_row c db t vals = Inr db'"
    by (cases "insert_row c db t vals") (simp_all add: outcome_def)
  from insert_row_Inr(1) [OF r assms(2)] r show ?thesis
    by simp
qed

lemma new_row_default:
  assumes "n \<notin> set (map fst vals)" and "lookup_column d n = Some k"
  shows "new_row c d vals n = map_option (eval_default c) (col_default k)"
proof -
  from assms(1) have "map_of vals n = None"
    by (simp add: map_of_eq_None_iff)
  with assms(2) show ?thesis
    by (simp add: new_row_def split: option.splits)
qed

lemma insert_row_error:
  "insert_row c db t vals = Inl e \<Longrightarrow> exec c db (Insert t vals) = (Some e, db)"
  by (simp add: outcome_def)

lemma insert_row_fails:
  assumes "lookup_table t = Some d"
    and "constraint_error d (db t) (new_row c d vals) \<noteq> None \<or> \<not> fk_ok db d (new_row c d vals)"
  shows "\<exists>e. insert_row c db t vals = Inl e"
proof (cases "insert_row c db t vals")
  case (Inl e)
  then show ?thesis by simp
next
  case (Inr db')
  from insert_row_Inr(4,5) [OF Inr assms(1)] assms(2) show ?thesis by simp
qed

text \<open>
  C5. An insert into \<^verbatim>\<open>appointments\<close> that supplies no status and succeeds stores,
  as the last row of the table, a row with the status \<^verbatim>\<open>scheduled\<close>; an insert into
  \<^verbatim>\<open>lab_results\<close> that supplies no status and succeeds stores one with the status
  \<^verbatim>\<open>pending\<close>.
\<close>

theorem status_defaults:
  "(''status'' \<notin> set (map fst vals) \<and> fst (exec c db (Insert ''appointments'' vals)) = None \<longrightarrow>
      snd (exec c db (Insert ''appointments'' vals)) ''appointments'' =
        db ''appointments'' @ [new_row c appointments_table vals] \<and>
      new_row c appointments_table vals ''status'' = Some (Text ''scheduled'')) \<and>
   (''status'' \<notin> set (map fst vals) \<and> fst (exec c db (Insert ''lab_results'' vals)) = None \<longrightarrow>
      snd (exec c db (Insert ''lab_results'' vals)) ''lab_results'' =
        db ''lab_results'' @ [new_row c lab_results_table vals] \<and>
      new_row c lab_results_table vals ''status'' = Some (Text ''pending''))"
proof -
  have a: "new_row c appointments_table vals ''status'' = Some (Text ''scheduled'')"
    if "''status'' \<notin> set (map fst vals)"
    using new_row_default [OF that, of appointments_table _ c]
    by (simp add: lookup_column_def appointments_table_def col_def eval_default_def)
  have l: "new_row c lab_results_table vals ''status'' = Some (Text ''pending'')"
    if "''status'' \<notin> set (map fst vals)"
    using new_row_default [OF that, of lab_results_table _ c]
    by (simp add: lookup_column_def lab_results_table_def col_def eval_default_def)
  show ?thesis
    using a l
    by (auto simp del: exec.simps
        simp: exec_insert_ok [OF _ lookup_table_simps(3)]
              exec_insert_ok [OF _ lookup_table_simps(7)])
qed

theorem status_defaults_witness:
  "db_role owner_ctx = table_owner \<and>
   ''status'' \<notin> set (map fst (appointment_values 20)) \<and>
   fst (exec owner_ctx clinic_db (Insert ''appointments'' (appointment_values 20))) = None \<and>
   last (snd (exec owner_ctx clinic_db (Insert ''appointments'' (appointment_values 20)))
           ''appointments'') ''status'' = Some (Text ''scheduled'') \<and>
   ''status'' \<notin> set (map fst (lab_test_values 20)) \<and>
   fst (exec owner_ctx clinic_db (Insert ''lab_results'' (lab_test_values 20))) = None \<and>
   last (snd (exec owner_ctx clinic_db (Insert ''lab_results'' (lab_test_values 20)))
           ''lab_results'') ''status'' = Some (Text ''pending'')"
proof -
  have o: "db_role owner_ctx = table_owner"
    by (simp add: owner_ctx_def)
  have a: "''status'' \<notin> set (map fst (appointment_values 20))"
    by (simp add: appointment_values_def)
  have b: "fst (exec owner_ctx clinic_db (Insert ''appointments'' (appointment_values 20))) = None"
    by code_simp
  have c: "''status'' \<notin> set (map fst (lab_test_values 20))"
    by (simp add: lab_test_values_def)
  have d: "fst (exec owner_ctx clinic_db (Insert ''lab_results'' (lab_test_values 20))) = None"
    by code_simp
  from a b status_defaults [of "appointment_values 20" owner_ctx clinic_db]
  have e: "last (snd (exec owner_ctx clinic_db (Insert ''appointments'' (appointment_values 20)))
           ''appointments'') ''status'' = Some (Text ''scheduled'')"
    by (simp del: exec.simps)
  from c d status_defaults [of "lab_test_values 20" owner_ctx clinic_db]
  have f: "last (snd (exec owner_ctx clinic_db (Insert ''lab_results'' (lab_test_values 20)))
           ''lab_results'') ''status'' = Some (Text ''pending'')"
    by (simp del: exec.simps)
  from o a b c d e f show ?thesis by blast
qed

subsection \<open>Unique columns and references\<close>

lemma unique_ok_conflict:
  assumes "n \<in> set (unique_columns d)" and "p \<in> set others" and "p n = r n" and "r n \<noteq> None"
  shows "\<not> unique_ok d others r"
  using assms by (auto simp: unique_ok_def list_all_iff list_ex_iff)

lemma national_id_column: "''national_id'' \<in> set (unique_columns patients_table)"
  by (simp add: unique_columns_def patients_table_def col_def)

text \<open>
  C6, as stated, fails: \<^verbatim>\<open>NOT NULL\<close> and \<^verbatim>\<open>CHECK\<close> are tested before the unique index.
  The owner of the tables, who holds every privilege, inserts a patient with the
  \<^verbatim>\<open>national_id\<close> of the patient already registered and the gender \<^verbatim>\<open>unknown\<close>; the
  insert ends with the check violation, not with the uniqueness one.
\<close>

theorem national_id_unique_counterexample:
  "db_role owner_ctx = table_owner \<and>
   length (clinic_db ''patients'') = 1 \<and>
   hd (clinic_db ''patients'') ''national_id''
     = new_row owner_ctx patients_table (patient_values ''unknown'' ''63-123456-A-42'')
         ''national_id'' \<and>
   fst (exec owner_ctx clinic_db
          (Insert ''patients'' (patient_values ''unknown'' ''63-123456-A-42'')))
     = Some check_violation"
  by code_simp

text \<open>
  C6, amended. Whatever the state of \<^verbatim>\<open>patients\<close> and whoever the caller, an insert of
  a patient whose \<^verbatim>\<open>national_id\<close> is that of an existing patient fails and leaves the
  database as it was. When the insert gets as far as the unique index (the statement is
  admitted, the row passes the insert policy, \<^verbatim>\<open>NOT NULL\<close> and \<^verbatim>\<open>CHECK\<close>), the error is the
  uniqueness violation.
\<close>

theorem national_id_unique:
  assumes "p \<in> set (db ''patients'')"
    and "p ''national_id'' = new_row c patients_table vals ''national_id''"
    and "p ''national_id'' \<noteq> None"
  shows "fst (exec c db (Insert ''patients'' vals)) \<noteq> None \<and>
         snd (exec c db (Insert ''patients'' vals)) = db \<and>
         (insert_admission c ''patients'' patients_table vals = None \<and>
          with_check_ok c db ''patients'' FOR_INSERT (new_row c patients_table vals) \<and>
          not_null_ok patients_table (new_row c patients_table vals) \<and>
          checks_ok patients_table (new_row c patients_table vals) \<longrightarrow>
            exec c db (Insert ''patients'' vals) = (Some unique_violation, db))"
proof -
  let ?r = "new_row c patients_table vals"
  have u: "\<not> unique_ok patients_table (db ''patients'') ?r"
    using national_id_column assms(1,2) assms(3) [unfolded assms(2)]
    by (rule unique_ok_conflict)
  then have ce: "constraint_error patients_table (db ''patients'') ?r \<noteq> None"
    by (simp add: constraint_error_def)
  from ce obtain e where "insert_row c db ''patients'' vals = Inl e"
    using insert_row_fails [OF lookup_table_simps(2)] by blast
  then have fails: "fst (exec c db (Insert ''patients'' vals)) \<noteq> None \<and>
      snd (exec c db (Insert ''patients'' vals)) = db"
    by simp
  have "insert_row c db ''patients'' vals = Inl unique_violation"
    if "insert_admission c ''patients'' patients_table vals = None"
      and "with_check_ok c db ''patients'' FOR_INSERT ?r"
      and "not_null_ok patients_table ?r" and "checks_ok patients_table ?r"
    using that u
    by (simp add: insert_row_def lookup_table_simps Let_def constraint_error_def)
  with fails show ?thesis
    by (auto simp del: exec.simps dest: insert_row_error)
qed

theorem national_id_unique_witness:
  "db_role owner_ctx = table_owner \<and>
   hd (hospital_db ''patients'') \<in> set (hospital_db ''patients'') \<and>
   hd (hospital_db ''patients'') ''national_id'' = Some (Text ''63-123456-A-42'') \<and>
   exec owner_ctx hospital_db (Insert ''patients'' (patient_values ''male'' ''63-123456-A-42''))
     = (Some unique_violation, hospital_db)"
proof -
  let ?vals = "patient_values ''male'' ''63-123456-A-42''"
  have o: "db_role owner_ctx = table_owner"
    by (simp add: owner_ctx_def)
  have a: "hd (hospital_db ''patients'') \<in> set (hospital_db ''patients'')"
    by (simp add: hospital_db_def clinic_db_def)
  have b: "hd (hospital_db ''patients'') ''national_id''
      = new_row owner_ctx patients_table ?vals ''national_id''"
    by code_simp
  have c: "hd (hospital_db ''patients'') ''national_id'' = Some (Text ''63-123456-A-42'')"
    by code_simp
  then have c': "hd (hospital_db ''patients'') ''national_id'' \<noteq> None"
    by simp
  have d: "insert_admission owner_ctx ''patients'' patients_table ?vals = None"
    by code_simp
  have e: "with_check_ok owner_ctx hospital_db ''patients'' FOR_INSERT
      (new_row owner_ctx patients_table ?vals)"
    by code_simp
  have f: "not_null_ok patients_table (new_row owner_ctx patients_table ?vals)"
    by code_simp
  have g: "checks_ok patients_table (new_row owner_ctx patients_table ?vals)"
    by code_simp
  from national_id_unique [where p = "hd (hospital_db ''patients'')" and db = hospital_db
      and c = owner_ctx and vals = ?vals, OF a b c'] d e f g
  have "exec owner_ctx hospital_db (Insert ''patients'' ?vals) = (Some unique_violation, hospital_db)"
    by blast
  with o a c show ?thesis by blast
qed

lemma schema_foreign_keys:
  "map (\<lambda>d. (tbl_name d, foreign_keys d)) schema = [
     (''staff'', [(''user_id'', ''auth.users'')]),
     (''patients'', []),
     (''appointments'', [(''patient_id'', ''patients''), (''doctor_id'', ''staff'')]),
     (''medical_records'', [(''patient_id'', ''patients''), (''doctor_id'', ''staff''),
        (''appointment_id'', ''appointments'')]),
     (''vitals'', [(''medical_record_id'', ''medical_records''), (''recorded_by'', ''staff'')]),
     (''prescriptions'', [(''medical_record_id'', ''medical_records''),
        (''patient_id'', ''patients''), (''doctor_id'', ''staff'')]),
     (''lab_results'', [(''patient_id'', ''patients''), (''medical_record_id'', ''medical_records''),
        (''ordered_by'', ''staff''), (''performed_by'', ''staff'')])]"
  by (simp add: schema_def foreign_keys_def staff_table_def patients_table_def
      appointments_table_def medical_records_table_def vitals_table_def
      prescriptions_table_def lab_results_table_def col_def)

lemma fk_ok_dangling:
  assumes "(n, p) \<in> set (foreign_keys d)" and "r n = Some v"
    and "\<not> parent_exists db p (Some v)"
  shows "\<not> fk_ok db d r"
  using assms by (force simp: fk_ok_def list_all_iff)

text \<open>
  C7, as stated, fails: the foreign keys are checked last, after \<^verbatim>\<open>NOT NULL\<close>, \<^verbatim>\<open>CHECK\<close>
  and the unique indexes. The owner of the tables inserts an appointment for the patient
  99, who does not exist, with the status \<^verbatim>\<open>arrived\<close>; the insert ends with the check
  violation, not with the referential-integrity error.
\<close>

theorem dangling_reference_counterexample:
  "db_role owner_ctx = table_owner \<and>
   (''patient_id'', ''patients'') \<in> set (foreign_keys appointments_table) \<and>
   new_row owner_ctx appointments_table stray_appointment_values ''patient_id''
     = Some (Uuid 99) \<and>
   \<not> parent_exists clinic_db ''patients'' (Some (Uuid 99)) \<and>
   fst (exec owner_ctx clinic_db (Insert ''appointments'' stray_appointment_values))
     = Some check_violation"
  by code_simp

text \<open>
  C7, amended. For every table of the schema, so for each of \<^verbatim>\<open>appointments\<close>,
  \<^verbatim>\<open>medical_records\<close>, \<^verbatim>\<open>vitals\<close>, \<^verbatim>\<open>prescriptions\<close> and \<^verbatim>\<open>lab_results\<close>, and every
  foreign key of it: an insert of a row whose foreign-key column holds an identifier
  that no row of the referenced table has fails and leaves the database as it was. When
  the insert gets as far as the foreign keys (the statement is admitted, the row passes
  the insert policy, \<^verbatim>\<open>NOT NULL\<close>, \<^verbatim>\<open>CHECK\<close> and the unique indexes), the error is the
  referential-integrity one.
\<close>

theorem dangling_reference_rejected:
  assumes "d \<in> set schema" and "(n, p) \<in> set (foreign_keys d)"
    and "new_row c d vals n = Some v" and "\<not> parent_exists db p (Some v)"
  shows "fst (exec c db (Insert (tbl_name d) vals)) \<noteq> None \<and>
         snd (exec c db (Insert (tbl_name d) vals)) = db \<and>
         (insert_admission c (tbl_name d) d vals = None \<and>
          with_check_ok c db (tbl_name d) FOR_INSERT (new_row c d vals) \<and>
          constraint_error d (db (tbl_name d)) (new_row c d vals) = None \<longrightarrow>
            exec c db (Insert (tbl_name d) vals) = (Some foreign_key_violation, db))"
proof -
  let ?t = "tbl_name d" and ?r = "new_row c d vals"
  note lk = lookup_schema [OF assms(1)]
  from assms(2-4) have fk: "\<not> fk_ok db d ?r"
    by (rule fk_ok_dangling)
  then obtain e where "insert_row c db ?t vals = Inl e"
    using insert_row_fails [OF lk] by blast
  then have fails: "fst (exec c db (Insert ?t vals)) \<noteq> None \<and>
      snd (exec c db (Insert ?t vals)) = db"
    by simp
  have "insert_row c db ?t vals = Inl foreign_key_violation"
    if "insert_admission c ?t d vals = None" and "with_check_ok c db ?t FOR_INSERT ?r"
      and "constraint_error d (db ?t) ?r = None"
    using that fk lk
    by (simp add: insert_row_def Let_def)
  with fails show ?thesis
    by (auto simp del: exec.simps dest: insert_row_error)
qed

theorem dangling_reference_rejected_witness:
  "db_role owner_ctx = table_owner \<and>
   appointments_table \<in> set schema \<and>
   (''patient_id'', ''patients'') \<in> set (foreign_keys appointments_table) \<and>
   new_row owner_ctx appointments_table (appointment_values 99) ''patient_id''
     = Some (Uuid 99) \<and>
   \<not> parent_exists clinic_db ''patients'' (Some (Uuid 99)) \<and>
   exec owner_ctx clinic_db (Insert ''appointments'' (appointment_values 99))
     = (Some foreign_key_violation, clinic_db)"
proof -
  let ?vals = "appointment_values 99"
  have o: "db_role owner_ctx = table_owner"
    by (simp add: owner_ctx_def)
  have a: "appointments_table \<in> set schema"
    by (simp add: schema_def)
  have b: "(''patient_id'', ''patients'') \<in> set (foreign_keys appointments_table)"
    by code_simp
  have c: "new_row owner_ctx appointments_table ?vals ''patient_id'' = Some (Uuid 99)"
    by code_simp
  have d: "\<not> parent_exists clinic_db ''patients'' (Some (Uuid 99))"
    by code_simp
  have e: "insert_admission owner_ctx ''appointments'' appointments_table ?vals = None"
    by code_simp
  have f: "with_check_ok owner_ctx clinic_db ''appointments'' FOR_INSERT
      (new_row owner_ctx appointments_table ?vals)"
    by code_simp
  have g: "constraint_error appointments_table (clinic_db ''appointments'')
      (new_row owner_ctx appointments_table ?vals) = None"
    by code_simp
  have n: "tbl_name appointments_table = ''appointments''"
    by (simp add: appointments_table_def)
  from dangling_reference_rejected [where d = appointments_table and db = clinic_db
      and c = owner_ctx and vals = ?vals, OF a b c d] e f g
  have "exec owner_ctx clinic_db (Insert ''appointments'' ?vals)
      = (Some foreign_key_violation, clinic_db)"
    unfolding n by blast
  with o a b c d show ?thesis by blast
qed

subsection \<open>The sample states are reachable\<close>

lemma owner_insert:
  assumes "db_role c = table_owner" and "lookup_table t = Some d"
    and "parse_insert d vals = None" and "range_error d vals = None"
    and "constraint_error d (db t) (new_row c d vals) = None"
    and "fk_ok db d (new_row c d vals)"
  shows "snd (exec c db (Insert t vals)) = db(t := db t @ [new_row c d vals])"
  using assms
  by (simp add: insert_row_def insert_admission_def expand_policies_def has_privilege_def
      with_check_ok_def bypasses_rls_def)

lemma demo_step1:
  "snd (exec owner_ctx empty_db (Insert ''auth.users'' (demo_user_values owner_ctx 7 ''hash'')))
     = empty_db(''auth.users'' :=
         [new_row owner_ctx auth_users_table (demo_user_values owner_ctx 7 ''hash'')])"
proof -
  let ?vals = "demo_user_values owner_ctx 7 ''hash''"
  have "db_role owner_ctx = table_owner"
    by (simp add: owner_ctx_def)
  moreover note lookup_table_simps(8)
  moreover have "parse_insert auth_users_table ?vals = None"
    and "range_error auth_users_table ?vals = None"
    by code_simp+
  moreover have "constraint_error auth_users_table (empty_db ''auth.users'')
      (new_row owner_ctx auth_users_table ?vals) = None"
    by code_simp
  moreover have "fk_ok empty_db auth_users_table (new_row owner_ctx auth_users_table ?vals)"
    by code_simp
  ultimately show ?thesis
    using owner_insert [of owner_ctx "''auth.users''" auth_users_table _ empty_db]
    by (simp add: empty_db_def del: exec.simps)
qed

lemma demo_step2:
  "snd (exec owner_ctx
          (empty_db(''auth.users'' :=
             [new_row owner_ctx auth_users_table (demo_user_values owner_ctx 7 ''hash'')]))
          (Insert ''staff'' (demo_staff_values 7)))
     = demo_db"
proof -
  let ?db1 = "empty_db(''auth.users'' :=
    [new_row owner_ctx auth_users_table (demo_user_values owner_ctx 7 ''hash'')])"
  have "db_role owner_ctx = table_owner"
    by (simp add: owner_ctx_def)
  moreover note lookup_table_simps(1)
  moreover have "parse_insert staff_table (demo_staff_values 7) = None"
    and "range_error staff_table (demo_staff_values 7) = None"
    by code_simp+
  moreover have "constraint_error staff_table (?db1 ''staff'')
      (new_row owner_ctx staff_table (demo_staff_values 7)) = None"
    by code_simp
  moreover have "fk_ok ?db1 staff_table (new_row owner_ctx staff_table (demo_staff_values 7))"
    by code_simp
  ultimately show ?thesis
    using owner_insert [of owner_ctx "''staff''" staff_table _ ?db1]
    by (simp add: empty_db_def demo_db_def del: exec.simps)
qed

lemma demo_db_reachable: "run empty_db demo_history = demo_db"
  by (simp add: demo_history_def demo_step1 demo_step2 del: exec.simps)

lemma demo_db_migration: "add_demo_account owner_ctx 7 ''hash'' empty_db = demo_db"
  by (simp add: add_demo_account_def demo_step1 demo_step2 del: exec.simps)
     (simp add: empty_db_def)

lemma run_append: "run db (h1 @ h2) = run (run db h1) h2"
  by (induction h1 arbitrary: db) auto

lemma clinic_step:
  "snd (exec registrar_ctx demo_db
          (Insert ''patients'' (patient_values ''female'' ''63-123456-A-42'')))
     = clinic_db"
proof -
  let ?vals = "patient_values ''female'' ''63-123456-A-42''"
  have "db_role registrar_ctx = table_owner"
    by (simp add: registrar_ctx_def owner_ctx_def)
  moreover note lookup_table_simps(2)
  moreover have "parse_insert patients_table ?vals = None"
    and "range_error patients_table ?vals = None"
    by code_simp+
  moreover have "constraint_error patients_table (demo_db ''patients'')
      (new_row registrar_ctx patients_table ?vals) = None"
    by code_simp
  moreover have "fk_ok demo_db patients_table (new_row registrar_ctx patients_table ?vals)"
    by code_simp
  moreover have "demo_db ''patients'' = []"
    by (simp add: demo_db_def empty_db_def)
  ultimately show ?thesis
    using owner_insert [of registrar_ctx "''patients''" patients_table _ demo_db]
    by (simp add: clinic_db_def del: exec.simps)
qed

lemma clinic_db_reachable: "run empty_db clinic_history = clinic_db"
  by (simp add: clinic_history_def run_append demo_db_reachable clinic_step del: exec.simps)

subsection \<open>The identity binding is kept\<close>

lemma staff_constraints:
  assumes "constraint_error staff_table others r = None"
  shows "r ''user_id'' \<noteq> None" and "r ''user_id'' \<notin> set (map (\<lambda>s. s ''user_id'') others)"
proof -
  from assms have nn: "not_null_ok staff_table r" and u: "unique_ok staff_table others r"
    by (auto simp: constraint_error_def split: if_splits)
  from nn show n: "r ''user_id'' \<noteq> None"
    by (simp add: not_null_ok_def staff_table_def col_def)
  from u have "r ''user_id'' = None \<or> \<not> list_ex (\<lambda>x. x ''user_id'' = r ''user_id'') others"
    by (simp add: unique_ok_def unique_columns_def staff_table_def col_def)
  with n show "r ''user_id'' \<notin> set (map (\<lambda>s. s ''user_id'') others)"
    by (auto simp: list_ex_iff)
qed

lemma bound_once_insert:
  assumes "bound_once (seen @ rest)" and "constraint_error staff_table (seen @ rest) r = None"
  shows "bound_once (seen @ r # rest)"
  using assms(1) staff_constraints [OF assms(2)]
  by (auto simp: bound_once_def)

lemma bound_once_remove: "bound_once (seen @ r # rest) \<Longrightarrow> bound_once (seen @ rest)"
  by (auto simp: bound_once_def)

lemma update_loop_bound_once:
  assumes "update_loop staff_table tgt admits sets seen rest = Inr rows'"
    and "bound_once (seen @ rest)"
  shows "bound_once rows'"
  using assms
proof (induction rest arbitrary: seen)
  case Nil
  then show ?case by simp
next
  case (Cons r rest)
  show ?case
  proof (cases "tgt r")
    case False
    with Cons.prems have "update_loop staff_table tgt admits sets (seen @ [r]) rest = Inr rows'"
      and "bound_once ((seen @ [r]) @ rest)"
      by simp_all
    then show ?thesis by (rule Cons.IH)
  next
    case True
    let ?r' = "set_row sets r"
    from True Cons.prems(1)
    have ce: "constraint_error staff_table (seen @ rest) ?r' = None"
      and rec: "update_loop staff_table tgt admits sets (seen @ [?r']) rest = Inr rows'"
      by (auto simp: Let_def split: if_splits option.splits)
    from Cons.prems(2) have "bound_once (seen @ rest)"
      by (rule bound_once_remove)
    then have "bound_once (seen @ ?r' # rest)"
      using ce by (rule bound_once_insert)
    then have "bound_once ((seen @ [?r']) @ rest)"
      by simp
    with rec show ?thesis by (rule Cons.IH)
  qed
qed

lemma bound_once_filter: "bound_once rows \<Longrightarrow> bound_once (filter P rows)"
  by (auto simp: bound_once_def list_all_iff distinct_map_filter)

lemma staff_inv_insert:
  assumes "staff_inv db"
  shows "staff_inv (snd (exec c db (Insert t vals)))"
proof (cases "insert_row c db t vals")
  case (Inl e)
  with assms show ?thesis by simp
next
  case (Inr db')
  show ?thesis
  proof (cases "t = ''staff''")
    case False
    then have "snd (exec c db (Insert t vals)) ''staff'' = db ''staff''"
      using exec_frame [of "''staff''" "Insert t vals" c db] by simp
    with assms show ?thesis by (simp add: staff_inv_def)
  next
    case True
    note r = Inr [unfolded True]
    from insert_row_Inr(1,4) [OF r lookup_table_simps(1)]
    have "db' ''staff'' = db ''staff'' @ [new_row c staff_table vals]"
      and "constraint_error staff_table (db ''staff'' @ []) (new_row c staff_table vals) = None"
      by simp_all
    moreover from assms have "bound_once (db ''staff'' @ [])"
      by (simp add: staff_inv_def)
    ultimately have "bound_once (db' ''staff'')"
      using bound_once_insert [of "db ''staff''" "[]"] by simp
    with Inr show ?thesis by (simp add: staff_inv_def)
  qed
qed

lemma staff_inv_update:
  assumes "staff_inv db"
  shows "staff_inv (snd (exec c db (Update t sets wher)))"
proof (cases "update_rows c db t sets wher")
  case (Inl e)
  with assms show ?thesis by simp
next
  case (Inr db')
  show ?thesis
  proof (cases "t = ''staff''")
    case False
    then have "snd (exec c db (Update t sets wher)) ''staff'' = db ''staff''"
      using exec_frame [of "''staff''" "Update t sets wher" c db] by simp
    with assms show ?thesis by (simp add: staff_inv_def)
  next
    case True
    from Inr [unfolded True] obtain rows'
      where l: "update_loop staff_table (update_target c db ''staff'' wher)
                  (update_admits c db ''staff'' wher) sets [] (db ''staff'') = Inr rows'"
        and d: "db' = db(''staff'' := rows')"
      by (auto simp: update_rows_def lookup_table_simps Let_def
          split: option.splits if_splits sum.splits)
    from assms have "bound_once ([] @ db ''staff'')"
      by (simp add: staff_inv_def)
    with l have "bound_once rows'"
      by (rule update_loop_bound_once)
    with Inr d show ?thesis by (simp add: staff_inv_def)
  qed
qed

lemma staff_inv_delete:
  assumes "staff_inv db"
  shows "staff_inv (snd (exec c db (Delete t wher)))"
proof (cases "delete_rows c db t wher")
  case (Inl e)
  with assms show ?thesis by simp
next
  case (Inr db')
  then have "db' ''staff'' = db ''staff'' \<or> (\<exists>P. db' ''staff'' = filter P (db ''staff''))"
    by (auto simp: delete_rows_def Let_def split: option.splits if_splits)
  with assms have "bound_once (db' ''staff'')"
    by (auto simp: staff_inv_def bound_once_filter)
  with Inr show ?thesis by (simp add: staff_inv_def)
qed

lemma staff_inv_exec: "staff_inv db \<Longrightarrow> staff_inv (snd (exec c db st))"
proof (cases st)
  case (Select t w)
  assume "staff_inv db"
  with Select show ?thesis by (simp split: sum.splits)
next
  case (Insert t v)
  assume "staff_inv db"
  with Insert show ?thesis by (simp only: staff_inv_insert)
next
  case (Update t s w)
  assume "staff_inv db"
  with Update show ?thesis by (simp only: staff_inv_update)
next
  case (Delete t w)
  assume "staff_inv db"
  with Delete show ?thesis by (simp only: staff_inv_delete)
qed

lemma staff_inv_run: "staff_inv db \<Longrightarrow> staff_inv (run db h)"
proof (induction h arbitrary: db)
  case Nil
  then show ?case by simp
next
  case (Cons cs h)
  obtain c st where "cs = (c, st)" by (cases cs)
  with Cons show ?case by (simp add: staff_inv_exec del: exec.simps)
qed

text \<open>
  C8. In every state that a history of statements, by whatever callers, reaches from
  the empty tables, every staff row has a \<^verbatim>\<open>user_id\<close> and no two staff rows have the
  same one; and every statement, run in a state where this holds, ends in a state where
  it holds.
\<close>

theorem staff_identity_binding:
  "staff_inv (run empty_db h) \<and> (staff_inv db \<longrightarrow> staff_inv (snd (exec c db st)))"
proof -
  have "staff_inv empty_db"
    by (simp add: staff_inv_def bound_once_def empty_db_def)
  then have "staff_inv (run empty_db h)"
    by (rule staff_inv_run)
  then show ?thesis
    by (simp add: staff_inv_exec del: exec.simps)
qed

theorem staff_identity_binding_witness:
  "db_role owner_ctx = table_owner \<and>
   length (run empty_db demo_history ''staff'') = 1 \<and>
   staff_inv (run empty_db demo_history) \<and>
   staff_inv hospital_db \<and>
   fst (exec owner_ctx hospital_db
          (Update ''staff'' [(''role'', Some (Text ''nurse''))] (Some (with_id 1)))) = None \<and>
   staff_inv (snd (exec owner_ctx hospital_db
     (Update ''staff'' [(''role'', Some (Text ''nurse''))] (Some (with_id 1))))) \<and>
   fst (exec owner_ctx hospital_db (Update ''staff'' [(''user_id'', Some (Uuid 7))] None))
     = Some unique_violation \<and>
   fst (exec owner_ctx hospital_db (Update ''staff'' [(''user_id'', None)] (Some (with_id 1))))
     = Some not_null_violation"
proof -
  have o: "db_role owner_ctx = table_owner"
    by (simp add: owner_ctx_def)
  have a: "length (run empty_db demo_history ''staff'') = 1"
    unfolding demo_db_reachable by code_simp
  have b: "staff_inv hospital_db"
    by code_simp
  have c: "fst (exec owner_ctx hospital_db
      (Update ''staff'' [(''role'', Some (Text ''nurse''))] (Some (with_id 1)))) = None"
    by code_simp
  have d: "fst (exec owner_ctx hospital_db
      (Update ''staff'' [(''user_id'', Some (Uuid 7))] None)) = Some unique_violation"
    by code_simp
  have e: "fst (exec owner_ctx hospital_db
      (Update ''staff'' [(''user_id'', None)] (Some (with_id 1)))) = Some not_null_violation"
    by code_simp
  from o a b c d e
    staff_identity_binding [of demo_history hospital_db owner_ctx
      "Update ''staff'' [(''role'', Some (Text ''nurse''))] (Some (with_id 1))"]
  show ?thesis by blast
qed

subsection \<open>Lab results\<close>

lemma update_loop_rows:
  assumes "update_loop d tgt admits sets seen rest = Inr rows'" and "x \<in> set rows'"
  shows "x \<in> set seen \<or> x \<in> set rest \<or> (\<exists>r \<in> set rest. x = set_row sets r)"
  using assms
proof (induction rest arbitrary: seen)
  case Nil
  then show ?case by simp
next
  case (Cons r rest)
  show ?case
  proof (cases "tgt r")
    case False
    with Cons.prems have "update_loop d tgt admits sets (seen @ [r]) rest = Inr rows'"
      by simp
    from Cons.IH [OF this Cons.prems(2)] show ?thesis by auto
  next
    case True
    with Cons.prems(1)
    have "update_loop d tgt admits sets (seen @ [set_row sets r]) rest = Inr rows'"
      by (auto simp: Let_def split: if_splits option.splits)
    from Cons.IH [OF this Cons.prems(2)] show ?thesis by auto
  qed
qed

lemma update_rows_rows:
  assumes "x \<in> set (snd (exec c db (Update t sets wher)) t)"
  shows "x \<in> set (db t) \<or> (\<exists>r \<in> set (db t). x = set_row sets r)"
proof (cases "update_rows c db t sets wher")
  case (Inl e)
  with assms show ?thesis by simp
next
  case (Inr db')
  then obtain d rows'
    where l: "update_loop d (update_target c db t wher) (update_admits c db t wher)
                sets [] (db t) = Inr rows'"
      and d: "db' = db(t := rows')"
    by (auto simp: update_rows_def Let_def split: option.splits if_splits sum.splits)
  from assms Inr d have "x \<in> set rows'" by simp
  from update_loop_rows [OF l this] show ?thesis by simp
qed

lemma insert_rows:
  assumes "x \<in> set (snd (exec c db (Insert t vals)) t)" and "lookup_table t = Some d"
  shows "x \<in> set (db t) \<or> x = new_row c d vals"
proof (cases "insert_row c db t vals")
  case (Inl e)
  with assms show ?thesis by simp
next
  case (Inr db')
  from insert_row_Inr(1) [OF Inr assms(2)] assms(1) Inr show ?thesis by auto
qed

lemma order_rows:
  assumes "x \<in> set (snd (AddLabTestModal_handleSubmit c db formData sid) ''lab_results'')"
  shows "x \<in> set (db ''lab_results'') \<or>
         (x ''status'' = Some (Text ''pending'') \<and> x ''completed_at'' = None)"
proof (cases "form_patient_id formData")
  case None
  with assms show ?thesis by (simp add: AddLabTestModal_handleSubmit_def)
next
  case (Some pid)
  note p = this
  show ?thesis
  proof (cases sid)
    case None
    with assms p show ?thesis by (simp add: AddLabTestModal_handleSubmit_def)
  next
    case (Some s)
    let ?vals = "[(''patient_id'', Some (Uuid pid)),
        (''test_name'', Some (Text (form_test_name formData))),
        (''test_type'', Some (Text (form_test_type formData))),
        (''ordered_by'', Some (Uuid s)),
        (''status'', Some (Text ''pending''))]"
    from assms p Some
    have "x \<in> set (snd (exec c db (Insert ''lab_results'' ?vals)) ''lab_results'')"
      by (simp add: AddLabTestModal_handleSubmit_def)
    from insert_rows [OF this lookup_table_simps(7)]
    have "x \<in> set (db ''lab_results'') \<or> x = new_row c lab_results_table ?vals" .
    moreover have "new_row c lab_results_table ?vals ''status'' = Some (Text ''pending'')"
      by (simp add: new_row_def)
    moreover have "new_row c lab_results_table ?vals ''completed_at'' = None"
      by (simp add: new_row_def lookup_column_def lab_results_table_def col_def)
    ultimately show ?thesis by auto
  qed
qed

lemma submit_rows:
  assumes "x \<in> set (snd (AddResultsForm_handleSubmit c db sid date_now i results) ''lab_results'')"
  shows "x \<in> set (db ''lab_results'') \<or>
         (x ''status'' = Some (Text ''completed'') \<and>
          x ''completed_at'' = Some (Timestamptz date_now))"
proof -
  let ?sets = "[(''results'', Some (Text results)), (''status'', Some (Text ''completed''))] @
      (case sid of None \<Rightarrow> [] | Some s \<Rightarrow> [(''performed_by'', Some (Uuid s))]) @
      [(''completed_at'', Some (Timestamptz date_now))]"
  from assms
  have "x \<in> set (snd (exec c db (Update ''lab_results'' ?sets (Some (with_id i)))) ''lab_results'')"
    by (simp add: AddResultsForm_handleSubmit_def updateLabResult_def)
  from update_rows_rows [OF this]
  have "x \<in> set (db ''lab_results'') \<or> (\<exists>r \<in> set (db ''lab_results''). x = set_row ?sets r)" .
  moreover have "set_row ?sets r ''status'' = Some (Text ''completed'')" for r
    by (simp add: set_row_def)
  moreover have "set_row ?sets r ''completed_at'' = Some (Timestamptz date_now)" for r
    by (cases sid) (simp_all add: set_row_def)
  ultimately show ?thesis by auto
qed

lemma app_step_lab_inv:
  assumes "lab_inv db" and "elsewhere (c, ev)"
  shows "lab_inv (app_step c db ev)"
proof (cases ev)
  case (OrderLabTest formData sid)
  show ?thesis
    unfolding OrderLabTest app_step.simps lab_inv_def list_all_iff
  proof
    fix x assume "x \<in> set (snd (AddLabTestModal_handleSubmit c db formData sid) ''lab_results'')"
    from order_rows [OF this] assms(1) show "completed_only x"
      by (auto simp: lab_inv_def list_all_iff completed_only_def)
  qed
next
  case (SubmitResults sid date_now i results)
  show ?thesis
    unfolding SubmitResults app_step.simps lab_inv_def list_all_iff
  proof
    fix x
    assume "x \<in> set (snd (AddResultsForm_handleSubmit c db sid date_now i results) ''lab_results'')"
    from submit_rows [OF this] assms(1) show "completed_only x"
      by (auto simp: lab_inv_def list_all_iff completed_only_def)
  qed
next
  case (OtherStatement st)
  with assms(2) have "table_of st \<noteq> ''lab_results''" by simp
  then have "snd (exec c db st) ''lab_results'' = db ''lab_results''"
    using exec_frame [of "''lab_results''" st c db] by simp
  with assms(1) OtherStatement show ?thesis
    by (simp add: lab_inv_def del: exec.simps)
qed

lemma app_run_lab_inv:
  "lab_inv db \<Longrightarrow> list_all elsewhere h \<Longrightarrow> lab_inv (app_run db h)"
proof (induction h arbitrary: db)
  case Nil
  then show ?case by simp
next
  case (Cons cev h)
  obtain c ev where cev: "cev = (c, ev)" by (cases cev)
  with Cons.prems have "lab_inv (app_step c db ev)" and "list_all elsewhere h"
    by (simp_all add: app_step_lab_inv)
  then have "lab_inv (app_run (app_step c db ev) h)"
    by (rule Cons.IH)
  with cev show ?case by simp
qed

text \<open>
  C9, as stated, fails: the schema ties \<^verbatim>\<open>completed_at\<close> to \<^verbatim>\<open>status\<close> by no
  constraint. In the state the migrations and the registration of a patient reach from
  the empty tables, the owner of the tables inserts a lab result with \<^verbatim>\<open>completed_at\<close>
  set and no status; the insert succeeds, and the row stored has the status \<^verbatim>\<open>pending\<close>
  and a completion time.
\<close>

theorem completed_only_counterexample:
  "db_role owner_ctx = table_owner \<and>
   fst (exec owner_ctx (run empty_db clinic_history)
          (Insert ''lab_results'' early_completed_values)) = None \<and>
   \<not> lab_inv (run empty_db
          (clinic_history @ [(owner_ctx, Insert ''lab_results'' early_completed_values)]))"
proof -
  have "db_role owner_ctx = table_owner"
    by (simp add: owner_ctx_def)
  moreover
  have "fst (exec owner_ctx clinic_db (Insert ''lab_results'' early_completed_values)) = None"
    by code_simp
  moreover have "\<not> lab_inv (snd (exec owner_ctx clinic_db
      (Insert ''lab_results'' early_completed_values)))"
    by code_simp
  ultimately show ?thesis
    by (simp add: run_append clinic_db_reachable del: exec.simps)
qed

text \<open>
  C9, amended. In every state that the application reaches from the empty tables, or
  from any state where the property holds, through its order form, its results form and
  its statements on other tables, whoever the callers are, a lab result with a
  completion time has the status \<^verbatim>\<open>completed\<close>. The order form stores only rows with the
  status \<^verbatim>\<open>pending\<close> and no completion time, and the results form changes a row only
  into one with the status \<^verbatim>\<open>completed\<close> and the completion time of that very
  submission.
\<close>

theorem lab_forms_completed_only:
  assumes "list_all elsewhere h"
  shows "lab_inv (app_run empty_db h) \<and>
         (lab_inv db \<longrightarrow> lab_inv (app_run db h)) \<and>
         (\<forall>x \<in> set (snd (AddLabTestModal_handleSubmit c db formData sid) ''lab_results'').
            x \<in> set (db ''lab_results'') \<or>
            (x ''status'' = Some (Text ''pending'') \<and> x ''completed_at'' = None)) \<and>
         (\<forall>x \<in> set (snd (AddResultsForm_handleSubmit c db sid date_now i results) ''lab_results'').
            x \<in> set (db ''lab_results'') \<or>
            (x ''status'' = Some (Text ''completed'') \<and>
             x ''completed_at'' = Some (Timestamptz date_now)))"
proof -
  have "lab_inv empty_db"
    by (simp add: lab_inv_def empty_db_def)
  then have "lab_inv (app_run empty_db h)"
    using assms by (rule app_run_lab_inv)
  moreover have "lab_inv db \<longrightarrow> lab_inv (app_run db h)"
    using assms by (simp add: app_run_lab_inv)
  ultimately show ?thesis
    using order_rows [of _ c db formData sid] submit_rows [of _ c db sid date_now i results]
    by blast
qed

theorem lab_forms_completed_only_witness:
  "list_all elsewhere lab_history \<and>
   lab_inv hospital_db \<and>
   map (\<lambda>r. (r ''id'', r ''status'', r ''completed_at''))
     (app_run hospital_db lab_history ''lab_results'')
     = [(Some (Uuid 23), Some (Text ''completed''), Some (Timestamptz 80))] \<and>
   lab_inv (app_run hospital_db lab_history)"
proof -
  have a: "list_all elsewhere lab_history"
    by code_simp
  have b: "lab_inv hospital_db"
    by code_simp
  have c: "map (\<lambda>r. (r ''id'', r ''status'', r ''completed_at''))
      (app_run hospital_db lab_history ''lab_results'')
      = [(Some (Uuid 23), Some (Text ''completed''), Some (Timestamptz 80))]"
    by code_simp
  from lab_forms_completed_only [OF a, of hospital_db] b
  have "lab_inv (app_run hospital_db lab_history)"
    by blast
  with a b c show ?thesis by blast
qed

end
